theory Spec2Isabelle
  imports Complex_Main "HOL-Library.Char_ord" "HOL-Library.List_Lexorder"
begin

section \<open>Strings\<close>

text \<open>
  A JavaScript string is modelled as a \<open>string\<close> (a \<open>char list\<close>), one \<open>char\<close> per
  UTF-16 code unit. The type \<open>char\<close> has 256 values, so the model covers the strings
  whose code units lie in U+0000..U+00FF; the line terminators U+2028 and U+2029 and
  the whitespace above U+00FF are outside it.
\<close>

definition LF :: char where
  "LF = CHR 0x0A"

definition CR :: char where
  "CR = CHR 0x0D"

text \<open>The \<open>.\<close> of a regular expression (no \<open>s\<close> flag) matches every code unit that is
  not a line terminator.\<close>

definition regex_dot :: "char \<Rightarrow> bool" where
  "regex_dot c = (c \<noteq> LF \<and> c \<noteq> CR)"

text \<open>\<open>String.prototype.split(sep)\<close> for a one-character separator: the empty string
  splits into one empty piece.\<close>

fun split_on :: "'a \<Rightarrow> 'a list \<Rightarrow> 'a list list" where
  "split_on sep [] = [[]]"
| "split_on sep (c # cs) =
     (if c = sep then [] # split_on sep cs
      else (case split_on sep cs of
              [] \<Rightarrow> [[c]]
            | l # ls \<Rightarrow> (c # l) # ls))"

text \<open>\<open>Array.prototype.join(sep)\<close>.\<close>

fun join :: "'a list \<Rightarrow> 'a list list \<Rightarrow> 'a list" where
  "join sep [] = []"
| "join sep [x] = x"
| "join sep (x # y # ys) = x @ sep @ join sep (y # ys)"

text \<open>\<open>String.prototype.toLowerCase\<close> on U+0000..U+00FF: the ASCII capitals and the
  Latin-1 capitals U+00C0..U+00DE (but the multiplication sign U+00D7) move up by 32.\<close>

definition to_lower_char :: "char \<Rightarrow> char" where
  "to_lower_char c =
     (let n = of_char c :: nat in
      if (65 \<le> n \<and> n \<le> 90) \<or> (192 \<le> n \<and> n \<le> 222 \<and> n \<noteq> 215)
      then char_of (n + 32) else c)"

definition toLowerCase :: "string \<Rightarrow> string" where
  "toLowerCase s = map to_lower_char s"

text \<open>The white space of \<open>trim\<close>, \<open>trimEnd\<close> and of \<open>\s\<close> on U+0000..U+00FF: tab,
  line feed, vertical tab, form feed, carriage return, space and no-break space.\<close>

definition is_js_space :: "char \<Rightarrow> bool" where
  "is_js_space c = (of_char c \<in> {9, 10, 11, 12, 13, 32, 160 :: nat})"

definition trimEnd :: "string \<Rightarrow> string" where
  "trimEnd s = rev (dropWhile is_js_space (rev s))"

definition trim :: "string \<Rightarrow> string" where
  "trim s = dropWhile is_js_space (trimEnd s)"

definition startsWith :: "string \<Rightarrow> string \<Rightarrow> bool" where
  "startsWith s p = (take (length p) s = p)"

definition endsWith :: "string \<Rightarrow> string \<Rightarrow> bool" where
  "endsWith s p = (length p \<le> length s \<and> drop (length s - length p) s = p)"

text \<open>\<open>String.prototype.includes\<close>: the needle starts at some position of the string.\<close>

fun includes_str :: "string \<Rightarrow> string \<Rightarrow> bool" where
  "includes_str [] needle = (needle = [])"
| "includes_str (c # cs) needle = (startsWith (c # cs) needle \<or> includes_str cs needle)"

section \<open>Scratchpad (src/lib.ts, parseScratchpad and serializeScratchpad)\<close>

record ScratchpadItem =
  item_done :: bool
  item_text :: string
  item_meta :: string

text \<open>The regular expression \<^verbatim>\<open>/^- \[([ xX])\] (.+)$/\<close>: on a match, the checkbox
  character (group 1) and the item text (group 2).\<close>

fun checklist_match :: "string \<Rightarrow> (char \<times> string) option" where
  "checklist_match (a # b # c # k # d # e # rest) =
     (if a = CHR ''-'' \<and> b = CHR '' '' \<and> c = CHR ''[''
         \<and> (k = CHR '' '' \<or> k = CHR ''x'' \<or> k = CHR ''X'')
         \<and> d = CHR '']'' \<and> e = CHR '' ''
         \<and> rest \<noteq> [] \<and> list_all regex_dot rest
      then Some (k, rest) else None)"
| "checklist_match _ = None"

text \<open>The regular expression \<^verbatim>\<open>/^<!--.*-->$/\<close>.\<close>

fun comment_match :: "string \<Rightarrow> bool" where
  "comment_match (a # b # c # d # rest) =
     (a = CHR ''<'' \<and> b = CHR ''!'' \<and> c = CHR ''-'' \<and> d = CHR ''-''
      \<and> 3 \<le> length rest
      \<and> drop (length rest - 3) rest = ''-->''
      \<and> list_all regex_dot (take (length rest - 3) rest))"
| "comment_match _ = False"

text \<open>The loop of \<open>parseScratchpad\<close> over the lines; \<open>prev\<close> is \<open>lines[i - 1]\<close>, and
  \<open>None\<close> at \<open>i = 0\<close>.\<close>

fun parse_lines :: "string option \<Rightarrow> string list \<Rightarrow> ScratchpadItem list" where
  "parse_lines prev [] = []"
| "parse_lines prev (line # rest) =
     (case checklist_match line of
        Some (k, t) \<Rightarrow>
          \<lparr>item_done = (to_lower_char k = CHR ''x''),
           item_text = t,
           item_meta = (case prev of
                          Some p \<Rightarrow> if comment_match p then p else []
                        | None \<Rightarrow> [])\<rparr>
          # parse_lines (Some line) rest
      | None \<Rightarrow> parse_lines (Some line) rest)"

definition parseScratchpad :: "string \<Rightarrow> ScratchpadItem list" where
  "parseScratchpad content = parse_lines None (split_on LF content)"

text \<open>The lines one item pushes: its meta when non-empty, then the checkbox line.\<close>

definition item_lines :: "ScratchpadItem \<Rightarrow> string list" where
  "item_lines it =
     (if item_meta it \<noteq> [] then [item_meta it] else [])
     @ [''- '' @ (if item_done it then ''[x]'' else ''[ ]'') @ '' '' @ item_text it]"

definition serializeScratchpad :: "ScratchpadItem list \<Rightarrow> string" where
  "serializeScratchpad items =
     join [LF] ([''# Scratchpad'', ''''] @ concat (map item_lines items)) @ [LF]"

section \<open>Paths (node:path on POSIX)\<close>

text \<open>
  \<open>path.join\<close> and \<open>path.basename\<close> belong to Node, not to this repository; they are
  modelled after Node's POSIX implementation. \<open>normalize_segments\<close> is Node's
  \<open>normalizeString\<close> on the segments between slashes: empty segments and \<open>.\<close> are
  dropped, \<open>..\<close> removes the segment before it, or stays when nothing is left to
  remove and the path is relative. \<open>res\<close> holds the segments kept so far, last first.
\<close>

fun normalize_segments :: "bool \<Rightarrow> string list \<Rightarrow> string list \<Rightarrow> string list" where
  "normalize_segments allowAboveRoot res [] = rev res"
| "normalize_segments allowAboveRoot res (seg # segs) =
     (if seg = [] \<or> seg = ''.'' then normalize_segments allowAboveRoot res segs
      else if seg = ''..'' then
        (case res of
           [] \<Rightarrow> normalize_segments allowAboveRoot (if allowAboveRoot then [''..''] else []) segs
         | kept # below \<Rightarrow>
             if kept \<noteq> ''..'' then normalize_segments allowAboveRoot below segs
             else normalize_segments allowAboveRoot (if allowAboveRoot then ''..'' # res else res) segs)
      else normalize_segments allowAboveRoot (seg # res) segs)"

definition path_normalize :: "string \<Rightarrow> string" where
  "path_normalize p =
     (if p = [] then ''.''
      else
        let isAbsolute = (hd p = CHR ''/'');
            trailingSeparator = (last p = CHR ''/'');
            q = join ''/'' (normalize_segments (\<not> isAbsolute) [] (split_on CHR ''/'' p))
        in if q = [] then (if isAbsolute then ''/'' else if trailingSeparator then ''./'' else ''.'')
           else (if isAbsolute then ''/'' else '''') @ q @ (if trailingSeparator then ''/'' else ''''))"

definition path_join :: "string list \<Rightarrow> string" where
  "path_join args =
     (let parts = filter (\<lambda>a. a \<noteq> []) args
      in if parts = [] then ''.'' else path_normalize (join ''/'' parts))"

definition path_basename :: "string \<Rightarrow> string" where
  "path_basename p =
     (case filter (\<lambda>a. a \<noteq> []) (split_on CHR ''/'' p) of
        [] \<Rightarrow> []
      | seg # segs \<Rightarrow> last (seg # segs))"

section \<open>Configuration (src/lib.ts, buildConfig)\<close>

record MemoryConfig =
  memoryDir :: string
  memoryFile :: string
  scratchpadFile :: string
  dailyDir :: string
  notesDir :: string
  contextFiles :: "string list"
  autocommit :: bool

text \<open>The environment is a \<open>Record<string, string | undefined>\<close>: \<open>None\<close> is
  \<open>undefined\<close>, and \<open>??\<close> takes the default exactly then.\<close>

definition nullish_or :: "string option \<Rightarrow> string \<Rightarrow> string" where
  "nullish_or v d = (case v of Some s \<Rightarrow> s | None \<Rightarrow> d)"

definition buildConfig :: "(string \<Rightarrow> string option) \<Rightarrow> MemoryConfig" where
  "buildConfig env =
     (let memoryDir = nullish_or (env ''PI_MEMORY_DIR'')
                        (path_join [nullish_or (env ''HOME'') ''~'', ''.pi'', ''agent'', ''memory'']);
          dailyDir = nullish_or (env ''PI_DAILY_DIR'') (path_join [memoryDir, ''daily'']);
          contextFiles = filter (\<lambda>f. f \<noteq> [])
                           (map trim (split_on CHR '','' (nullish_or (env ''PI_CONTEXT_FILES'') '''')));
          autocommit = (env ''PI_AUTOCOMMIT'' = Some ''1'' \<or> env ''PI_AUTOCOMMIT'' = Some ''true'')
      in \<lparr>memoryDir = memoryDir,
          memoryFile = path_join [memoryDir, ''MEMORY.md''],
          scratchpadFile = path_join [memoryDir, ''SCRATCHPAD.md''],
          dailyDir = dailyDir,
          notesDir = path_join [memoryDir, ''notes''],
          contextFiles = contextFiles,
          autocommit = autocommit\<rparr>)"

section \<open>The file system\<close>

text \<open>
  The state of the file system as the code sees it: \<open>fs_files\<close> is what
  \<open>readFileSync\<close> returns (\<open>None\<close> when it throws: no such file, a directory),
  \<open>fs_listing\<close> what \<open>readdirSync\<close> returns (\<open>None\<close> when it throws),
  \<open>fs_dirs\<close> the directories created so far, and \<open>fs_mkdir_error\<close> and
  \<open>fs_write_error\<close> say for which paths the operating system refuses \<open>mkdirSync\<close>
  and \<open>writeFileSync\<close>.
\<close>

record fs_state =
  fs_files :: "string \<Rightarrow> string option"
  fs_listing :: "string \<Rightarrow> string list option"
  fs_dirs :: "string set"
  fs_mkdir_error :: "string \<Rightarrow> bool"
  fs_write_error :: "string \<Rightarrow> bool"

datatype js_error = TypeError | ReferenceError string | IOError string

definition readFileSafe :: "fs_state \<Rightarrow> string \<Rightarrow> string option" where
  "readFileSafe fs filePath = fs_files fs filePath"

definition mkdirSync :: "string \<Rightarrow> fs_state \<Rightarrow> js_error + fs_state" where
  "mkdirSync p fs =
     (if fs_mkdir_error fs p then Inl (IOError p)
      else Inr (fs\<lparr>fs_dirs := insert p (fs_dirs fs)\<rparr>))"

definition writeFileSync :: "string \<Rightarrow> string \<Rightarrow> fs_state \<Rightarrow> js_error + fs_state" where
  "writeFileSync p contents fs =
     (if fs_write_error fs p then Inl (IOError p)
      else Inr (fs\<lparr>fs_files := (fs_files fs)(p \<mapsto> contents)\<rparr>))"

definition ensureDirs :: "MemoryConfig \<Rightarrow> fs_state \<Rightarrow> js_error + fs_state" where
  "ensureDirs config fs =
     (case mkdirSync (memoryDir config) fs of
        Inl e \<Rightarrow> Inl e
      | Inr fs1 \<Rightarrow>
          (case mkdirSync (dailyDir config) fs1 of
             Inl e \<Rightarrow> Inl e
           | Inr fs2 \<Rightarrow> mkdirSync (notesDir config) fs2))"

definition dailyPath :: "string \<Rightarrow> string \<Rightarrow> string" where
  "dailyPath dir date = path_join [dir, date @ ''.md'']"

section \<open>Memory context (src/lib.ts, buildMemoryContext)\<close>

text \<open>One \<open>if (content?.trim()) sections.push(heading + "\n\n" + content.trim())\<close>:
  the sections it pushes, none or one.\<close>

definition file_section :: "string \<Rightarrow> string option \<Rightarrow> string list" where
  "file_section heading content =
     (case content of
        None \<Rightarrow> []
      | Some c \<Rightarrow> if trim c \<noteq> [] then [heading @ [LF, LF] @ trim c] else [])"

definition scratchpad_section :: "string option \<Rightarrow> string list" where
  "scratchpad_section scratchpad =
     (case scratchpad of
        None \<Rightarrow> []
      | Some c \<Rightarrow>
          if trim c \<noteq> [] then
            (let openItems = filter (\<lambda>i. \<not> item_done i) (parseScratchpad c)
             in if length openItems > 0
                then [''## SCRATCHPAD.md (working context)'' @ [LF, LF] @ serializeScratchpad openItems]
                else [])
          else [])"

definition section_separator :: string where
  "section_separator = [LF, LF] @ ''---'' @ [LF, LF]"

text \<open>\<open>today\<close> and \<open>yesterday\<close> are what \<open>todayStr()\<close> and \<open>yesterdayStr()\<close> read from
  the clock. The result is the returned string and the file system after
  \<open>ensureDirs\<close>; an error of \<open>ensureDirs\<close> is thrown on.\<close>

definition buildMemoryContext ::
  "MemoryConfig \<Rightarrow> string \<Rightarrow> string \<Rightarrow> fs_state \<Rightarrow> js_error + (string \<times> fs_state)" where
  "buildMemoryContext config today yesterday fs =
     (case ensureDirs config fs of
        Inl e \<Rightarrow> Inl e
      | Inr fs1 \<Rightarrow>
          (let sections0 = concat (map (\<lambda>fileName.
                               file_section (''## '' @ fileName)
                                 (readFileSafe fs1 (path_join [memoryDir config, fileName])))
                             (contextFiles config));
               sections1 = sections0
                 @ file_section ''## MEMORY.md (long-term)'' (readFileSafe fs1 (memoryFile config));
               sections2 = sections1
                 @ scratchpad_section (readFileSafe fs1 (scratchpadFile config));
               sections3 = sections2
                 @ file_section (''## Daily log: '' @ today @ '' (today)'')
                     (readFileSafe fs1 (dailyPath (dailyDir config) today));
               sections4 = sections3
                 @ file_section (''## Daily log: '' @ yesterday @ '' (yesterday)'')
                     (readFileSafe fs1 (dailyPath (dailyDir config) yesterday))
           in Inr (if length sections4 = 0 then []
                   else ''# Memory'' @ [LF, LF] @ join section_separator sections4,
                   fs1)))"

section \<open>Session logs (src/lib.ts, scanSession)\<close>

text \<open>
  A value \<open>JSON.parse\<close> returns. An object lists its properties, each key once. A
  JavaScript value is a \<open>json option\<close>, \<open>None\<close> for \<open>undefined\<close>. A number carries the
  value of its double.
\<close>

datatype json =
  JNull
| JBool bool
| JNum rat
| JStr string
| JArr "json list"
| JObj "(string \<times> json) list"

fun truthy :: "json option \<Rightarrow> bool" where
  "truthy None = False"
| "truthy (Some JNull) = False"
| "truthy (Some (JBool b)) = b"
| "truthy (Some (JNum n)) = (n \<noteq> 0)"
| "truthy (Some (JStr s)) = (s \<noteq> [])"
| "truthy (Some (JArr xs)) = True"
| "truthy (Some (JObj ps)) = True"

text \<open>The property read \<open>v.k\<close>, for the keys this code reads (none of them is a
  property of a string, number, boolean or array): a \<open>TypeError\<close> on \<open>null\<close> and
  \<open>undefined\<close>. \<open>opt_prop\<close> is \<open>v?.k\<close>.\<close>

fun get_prop :: "json option \<Rightarrow> string \<Rightarrow> js_error + json option" where
  "get_prop None k = Inl TypeError"
| "get_prop (Some JNull) k = Inl TypeError"
| "get_prop (Some (JObj ps)) k = Inr (map_of ps k)"
| "get_prop (Some (JBool b)) k = Inr None"
| "get_prop (Some (JNum n)) k = Inr None"
| "get_prop (Some (JStr s)) k = Inr None"
| "get_prop (Some (JArr xs)) k = Inr None"

definition opt_prop :: "json option \<Rightarrow> string \<Rightarrow> json option" where
  "opt_prop v k = (case get_prop v k of Inl e \<Rightarrow> None | Inr r \<Rightarrow> r)"

definition LOOKBACK_MS :: int where
  "LOOKBACK_MS = 24 * 60 * 60 * 1000"

record SessionInfo =
  si_file :: string
  si_timestamp :: json
  si_title :: json
  si_isChild :: bool
  si_parentSession :: "json option"
  si_cwd :: json
  si_cost :: "json list"

text \<open>
  A log is the list of its lines, each with what \<open>JSON.parse\<close> makes of it (\<open>None\<close>
  when it throws). The body of the first loop for a line after the header; the state is
  \<open>title\<close> and the values added to \<open>totalCost\<close>, in order (the floating-point sum
  itself is not computed).
\<close>

definition scan_entry :: "json option \<Rightarrow> json \<times> json list \<Rightarrow> json \<times> json list" where
  "scan_entry line st =
     (case line of
        None \<Rightarrow> st
      | Some entry \<Rightarrow>
          (case get_prop (Some entry) ''type'' of
             Inl e \<Rightarrow> st
           | Inr ty \<Rightarrow>
               (let name = opt_prop (Some entry) ''name'';
                    title' = (case name of
                                Some n \<Rightarrow> if ty = Some (JStr ''session_info'') \<and> truthy name
                                          then n else fst st
                              | None \<Rightarrow> fst st);
                    message = opt_prop (Some entry) ''message'';
                    total = opt_prop (opt_prop (opt_prop message ''usage'') ''cost'') ''total'';
                    cost' = (case total of
                               Some c \<Rightarrow> if ty = Some (JStr ''message'')
                                            \<and> opt_prop message ''role'' = Some (JStr ''assistant'')
                                            \<and> truthy total
                                         then snd st @ [c] else snd st
                             | None \<Rightarrow> snd st)
                in (title', cost'))))"

fun scan_entries :: "json option list \<Rightarrow> json \<times> json list \<Rightarrow> json \<times> json list" where
  "scan_entries [] st = st"
| "scan_entries (line # rest) st = scan_entries rest (scan_entry line st)"

text \<open>
  The first loop. \<open>Rejected n\<close>: \<open>return null\<close> inside the loop (or a \<open>TypeError\<close> on a
  \<open>null\<close> header, caught by the outer \<open>catch\<close>) at \<open>lineNum = n\<close>. \<open>Scanned header title
  cost n\<close>: the loop ran to the end of the file, \<open>n\<close> lines read. \<open>date_ms\<close> is
  \<open>new Date(v).getTime()\<close>, \<open>None\<close> for \<open>NaN\<close>, and \<open>now\<close> is \<open>Date.now()\<close>.
\<close>

datatype first_pass = Rejected nat | Scanned "json option" json "json list" nat

definition scan_first_pass :: "(json \<Rightarrow> int option) \<Rightarrow> int \<Rightarrow> json option list \<Rightarrow> first_pass" where
  "scan_first_pass date_ms now lines =
     (let cutoffTime = now - LOOKBACK_MS in
      case lines of
        [] \<Rightarrow> Scanned None (JStr '''') [] 0
      | line # rest \<Rightarrow>
          (case line of
             None \<Rightarrow> Rejected 1
           | Some header \<Rightarrow>
               (case get_prop (Some header) ''timestamp'' of
                  Inl e \<Rightarrow> Rejected 1
                | Inr ts \<Rightarrow>
                    if truthy ts \<and> (case ts of
                                      Some v \<Rightarrow> (case date_ms v of
                                                   Some t \<Rightarrow> t < cutoffTime
                                                 | None \<Rightarrow> False)
                                    | None \<Rightarrow> False)
                    then Rejected 1
                    else (let st = scan_entries rest (JStr '''', [])
                          in Scanned (Some header) (fst st) (snd st) (length lines)))))"

text \<open>The second loop. \<open>find_text\<close> is \<open>content.find(c => c.type === "text")\<close>,
  \<open>slice80\<close> is \<open>.slice(0, 80)\<close> on what \<open>textPart.text\<close> holds.\<close>

fun find_text :: "json list \<Rightarrow> js_error + json option" where
  "find_text [] = Inr None"
| "find_text (c # cs) =
     (case get_prop (Some c) ''type'' of
        Inl e \<Rightarrow> Inl e
      | Inr ty \<Rightarrow> if ty = Some (JStr ''text'') then Inr (Some c) else find_text cs)"

fun slice80 :: "json option \<Rightarrow> js_error + json" where
  "slice80 (Some (JStr s)) = Inr (JStr (take 80 s))"
| "slice80 (Some (JArr xs)) = Inr (JArr (take 80 xs))"
| "slice80 v = Inl TypeError"

text \<open>One line of the second loop: \<open>Continue\<close> when the entry is no user message,
  \<open>Break t\<close> when it is one and the loop breaks with \<open>title = t\<close> (the empty string
  when nothing was assigned), an error when the body throws (the loop's \<open>catch\<close>
  continues).\<close>

datatype loop_step = Continue | Break json

definition user_entry_title :: "json \<Rightarrow> js_error + loop_step" where
  "user_entry_title entry =
     (case get_prop (Some entry) ''type'' of
        Inl e \<Rightarrow> Inl e
      | Inr ty \<Rightarrow>
          (let message = opt_prop (Some entry) ''message'' in
           if ty = Some (JStr ''message'') \<and> opt_prop message ''role'' = Some (JStr ''user'') then
             (case get_prop message ''content'' of
                Inl e \<Rightarrow> Inl e
              | Inr content \<Rightarrow>
                  (case content of
                     Some (JStr s) \<Rightarrow> Inr (Break (JStr (take 80 s)))
                   | Some (JArr parts) \<Rightarrow>
                       (case find_text parts of
                          Inl e \<Rightarrow> Inl e
                        | Inr None \<Rightarrow> Inr (Break (JStr ''''))
                        | Inr (Some textPart) \<Rightarrow>
                            (case get_prop (Some textPart) ''text'' of
                               Inl e \<Rightarrow> Inl e
                             | Inr t \<Rightarrow>
                                 (case slice80 t of
                                    Inl e \<Rightarrow> Inl e
                                  | Inr title \<Rightarrow> Inr (Break title))))
                   | _ \<Rightarrow> Inr (Break (JStr ''''))))
           else Inr Continue))"

fun first_user_title :: "json option list \<Rightarrow> json" where
  "first_user_title [] = JStr ''''"
| "first_user_title (None # rest) = first_user_title rest"
| "first_user_title (Some entry # rest) =
     (case user_entry_title entry of
        Inl e \<Rightarrow> first_user_title rest
      | Inr Continue \<Rightarrow> first_user_title rest
      | Inr (Break t) \<Rightarrow> t)"

text \<open>\<open>file\<close> is the log at \<open>filePath\<close>, \<open>None\<close> when the stream cannot be read (the
  outer \<open>catch\<close> returns \<open>null\<close>).\<close>

definition scanSession ::
  "(json \<Rightarrow> int option) \<Rightarrow> int \<Rightarrow> string \<Rightarrow> json option list option \<Rightarrow> SessionInfo option" where
  "scanSession date_ms now filePath file =
     (case file of
        None \<Rightarrow> None
      | Some lines \<Rightarrow>
          (case scan_first_pass date_ms now lines of
             Rejected n \<Rightarrow> None
           | Scanned header title cost n \<Rightarrow>
               (let ts = opt_prop header ''timestamp'' in
                case ts of
                  None \<Rightarrow> None
                | Some tsv \<Rightarrow>
                    if \<not> truthy ts then None
                    else
                      (let title2 = (if \<not> truthy (Some title) then first_user_title lines else title);
                           parent = opt_prop header ''parentSession'';
                           cwd = opt_prop header ''cwd''
                       in Some \<lparr>si_file = filePath,
                                si_timestamp = tsv,
                                si_title = (if truthy (Some title2) then title2 else JStr ''(untitled)''),
                                si_isChild = truthy parent,
                                si_parentSession = (if truthy parent then parent else None),
                                si_cwd = (case cwd of
                                            Some c \<Rightarrow> if truthy cwd then c else JStr ''''
                                          | None \<Rightarrow> JStr ''''),
                                si_cost = cost\<rparr>))))"

section \<open>Housekeeping titles (src/lib.ts, isHousekeeping)\<close>

text \<open>\<open>\w\<close> is \<open>[A-Za-z0-9_]\<close>.\<close>

definition is_word_char :: "char \<Rightarrow> bool" where
  "is_word_char c =
     (let n = of_char c :: nat in
      (48 \<le> n \<and> n \<le> 57) \<or> (65 \<le> n \<and> n \<le> 90) \<or> n = 95 \<or> (97 \<le> n \<and> n \<le> 122))"

text \<open>
  A pattern \<^verbatim>\<open>/^(h1|h2|...)\s+(n1|n2|...)/\<close>: one of the heads, then at least one
  white space, then one of the nouns. No noun starts with a white space, so the nouns
  are tried after the whole run of white space.
\<close>

definition match_head_space_noun :: "string list \<Rightarrow> string list \<Rightarrow> string \<Rightarrow> bool" where
  "match_head_space_noun heads nouns s =
     list_ex (\<lambda>h. startsWith s h \<and>
                (let r = drop (length h) s; r' = dropWhile is_js_space r
                 in length r' < length r \<and> list_ex (\<lambda>n. startsWith r' n) nouns))
       heads"

definition housekeeping_patterns :: "(string \<Rightarrow> bool) list" where
  "housekeeping_patterns =
     [match_head_space_noun [''clear'', ''review'', ''read'']
        [''done'', ''scratchpad'', ''today'', ''daily''],
      match_head_space_noun [''-'']
        [''no done'', ''scratchpad'', ''cleared'', ''reviewed'', ''task is''],
      match_head_space_noun [''scratchpad'']
        [''content'', ''management'', ''maintenance'', ''reviewed'', ''items''],
      (\<lambda>s. s = ''(untitled)''),
      (\<lambda>s. case s of [] \<Rightarrow> False | c # r \<Rightarrow> c = CHR ''/'' \<and> r \<noteq> [] \<and> list_all is_word_char r),
      (\<lambda>s. startsWith s ''write daily log'')]"

definition isHousekeeping :: "string \<Rightarrow> bool" where
  "isHousekeeping title =
     (let lower = toLowerCase title in list_ex (\<lambda>p. p lower) housekeeping_patterns)"

section \<open>Search (src/lib.ts, searchMemory)\<close>

record LineResult =
  lr_file :: string
  lr_line :: nat
  lr_text :: string

record SearchResult =
  fileMatches :: "string list"
  lineResults :: "LineResult list"

text \<open>
  The result limit \<open>maxResults\<close> is a JavaScript \<open>number\<close>: a finite value (a double,
  held as the rational it denotes), \<open>NaN\<close> or an infinity; a caller that leaves it out
  passes the default, \<open>Finite 20\<close>. \<open>count_lt k m\<close> is the comparison
  \<open>lineResults.length < maxResults\<close> at length \<open>k\<close>, and \<open>count_ge k m\<close> is
  \<open>lineResults.length >= maxResults\<close>; both are false on \<open>NaN\<close>, and neither rounds
  the limit.
\<close>

datatype js_number = Finite rat | PosInfinity | NegInfinity | NaN

fun count_lt :: "nat \<Rightarrow> js_number \<Rightarrow> bool" where
  "count_lt k (Finite q) = (of_nat k < q)"
| "count_lt k PosInfinity = True"
| "count_lt k NegInfinity = False"
| "count_lt k NaN = False"

fun count_ge :: "nat \<Rightarrow> js_number \<Rightarrow> bool" where
  "count_ge k (Finite q) = (q \<le> of_nat k)"
| "count_ge k PosInfinity = False"
| "count_ge k NegInfinity = True"
| "count_ge k NaN = False"

text \<open>The loop of \<open>searchFile\<close> over the lines, from index \<open>i\<close>; \<open>acc\<close> is
  \<open>lineResults\<close>.\<close>

fun search_lines ::
  "string \<Rightarrow> js_number \<Rightarrow> string \<Rightarrow> nat \<Rightarrow> string list \<Rightarrow> LineResult list \<Rightarrow> LineResult list" where
  "search_lines needle maxResults displayName i [] acc = acc"
| "search_lines needle maxResults displayName i (l # ls) acc =
     (if count_lt (length acc) maxResults
      then search_lines needle maxResults displayName (Suc i) ls
             (if includes_str (toLowerCase l) needle
              then acc @ [\<lparr>lr_file = displayName, lr_line = i + 1, lr_text = trimEnd l\<rparr>]
              else acc)
      else acc)"

definition searchFile ::
  "string \<Rightarrow> js_number \<Rightarrow> fs_state \<Rightarrow> string \<Rightarrow> string \<Rightarrow> SearchResult \<Rightarrow> SearchResult" where
  "searchFile needle maxResults fs filePath displayName st =
     (let st1 = (if includes_str (toLowerCase displayName) needle
                    \<and> displayName \<notin> set (fileMatches st)
                 then st\<lparr>fileMatches := fileMatches st @ [displayName]\<rparr> else st)
      in case readFileSafe fs filePath of
           None \<Rightarrow> st1
         | Some content \<Rightarrow>
             if content = [] then st1
             else st1\<lparr>lineResults :=
                      search_lines needle maxResults displayName 0 (split_on LF content)
                        (lineResults st1)\<rparr>)"

definition display_name :: "string \<Rightarrow> string \<Rightarrow> string" where
  "display_name pre f = (if pre \<noteq> [] then pre @ ''/'' @ f else f)"

text \<open>The loop of \<open>searchDir\<close> over the sorted Markdown file names.\<close>

fun search_files ::
  "string \<Rightarrow> js_number \<Rightarrow> fs_state \<Rightarrow> string \<Rightarrow> string \<Rightarrow> string list \<Rightarrow> SearchResult \<Rightarrow> SearchResult" where
  "search_files needle maxResults fs dir pre [] st = st"
| "search_files needle maxResults fs dir pre (f # files) st =
     (if count_ge (length (lineResults st)) maxResults then st
      else search_files needle maxResults fs dir pre files
             (searchFile needle maxResults fs (path_join [dir, f]) (display_name pre f) st))"

text \<open>\<open>sort()\<close> with no comparator orders strings by their code units, which is the
  lexicographic order of \<open>char list\<close>. A \<open>readdirSync\<close> that throws is caught.\<close>

definition searchDir ::
  "string \<Rightarrow> js_number \<Rightarrow> fs_state \<Rightarrow> string \<Rightarrow> string \<Rightarrow> SearchResult \<Rightarrow> SearchResult" where
  "searchDir needle maxResults fs dir pre st =
     (case fs_listing fs dir of
        None \<Rightarrow> st
      | Some names \<Rightarrow>
          search_files needle maxResults fs dir pre
            (sort (filter (\<lambda>f. endsWith f ''.md'') names)) st)"

definition searchMemory :: "MemoryConfig \<Rightarrow> string \<Rightarrow> js_number \<Rightarrow> fs_state \<Rightarrow> SearchResult" where
  "searchMemory config query maxResults fs =
     (let needle = toLowerCase query;
          st0 = \<lparr>fileMatches = [], lineResults = []\<rparr>;
          st1 = searchDir needle maxResults fs (memoryDir config) '''' st0;
          st2 = searchDir needle maxResults fs (dailyDir config) ''daily'' st1;
          st3 = searchDir needle maxResults fs (notesDir config) ''notes'' st2
      in st3)"

section \<open>The memory_write tool (src/unnamed/part_000, execute)\<close>

datatype write_target = Long_term | Daily | Note

datatype write_mode = Append | Overwrite

record write_params =
  p_target :: write_target
  p_content :: string
  p_mode :: "write_mode option"
  p_filename :: "string option"

record tool_result =
  tr_text :: string
  tr_details :: "(string \<times> string) list"

text \<open>
  The identifiers \<open>execute\<close> can read. Its first statement,
  \<^verbatim>\<open>const { target, content, mode } = params\<close>, binds three names; \<open>sid\<close> and \<open>ts\<close>
  follow; the parameters, the enclosing function and the module bind the others. The
  value of a binding does not matter here, only whether the name is bound: reading a
  name that no scope binds throws a \<open>ReferenceError\<close>.
\<close>

definition execute_bindings :: "string list" where
  "execute_bindings =
     [''target'', ''content'', ''mode'', ''sid'', ''ts'',
      ''_toolCallId'', ''params'', ''_signal'', ''_onUpdate'', ''ctx'']"

definition module_bindings :: "string list" where
  "module_bindings =
     [''pi'', ''rebuildTimer'', ''showDashboard'',
      ''getMarkdownTheme'', ''Markdown'', ''Type'', ''StringEnum'', ''completeSimple'', ''getModel'',
      ''fs'', ''path'', ''createReadStream'', ''createInterface'', ''execFileSync'',
      ''MEMORY_DIR'', ''MEMORY_FILE'', ''SCRATCHPAD_FILE'', ''DAILY_DIR'', ''NOTES_DIR'',
      ''CONTEXT_FILES'', ''AUTOCOMMIT'', ''SESSIONS_DIR'', ''SUMMARY_CACHE'',
      ''REBUILD_INTERVAL_MS'', ''LOOKBACK_MS'', ''modelRegistryRef'', ''cachedSummary'',
      ''lastRebuildTime'', ''gitCommit'', ''ensureDirs'', ''todayStr'', ''yesterdayStr'',
      ''nowTimestamp'', ''shortSessionId'', ''readFileSafe'', ''dailyPath'', ''parseScratchpad'',
      ''serializeScratchpad'', ''buildMemoryContext'', ''scanSession'', ''collectSessions'',
      ''isHousekeeping'', ''summarizeWithLLM'', ''buildSessionSummary'', ''getOrRebuildSummary'']"

definition read_identifier :: "string \<Rightarrow> 'a \<Rightarrow> js_error + 'a" where
  "read_identifier name v =
     (if name \<in> set execute_bindings \<or> name \<in> set module_bindings then Inr v
      else Inl (ReferenceError name))"

definition shortSessionId :: "string \<Rightarrow> string" where
  "shortSessionId sessionId = take 8 sessionId"

definition stamp :: "string \<Rightarrow> string \<Rightarrow> string \<Rightarrow> string \<Rightarrow> string" where
  "stamp label ts sid content = ''<!-- '' @ label @ ts @ '' ['' @ sid @ ''] -->'' @ [LF] @ content"

text \<open>
  \<open>execute\<close> of \<open>memory_write\<close>. \<open>sessionId\<close>, \<open>ts\<close> and \<open>today\<close> are what
  \<open>getSessionId()\<close>, \<open>nowTimestamp()\<close> and \<open>todayStr()\<close> return. \<open>gitCommit\<close> swallows
  every failure and touches no memory file, so it leaves the state as it is. In the note
  branch the value \<open>p_filename params\<close> is what \<open>filename\<close> would hold if it were bound.
\<close>

definition memory_write_execute ::
  "MemoryConfig \<Rightarrow> string \<Rightarrow> string \<Rightarrow> string \<Rightarrow> write_params \<Rightarrow> fs_state
     \<Rightarrow> js_error + (tool_result \<times> fs_state)" where
  "memory_write_execute config sessionId ts today params fs0 =
     (case ensureDirs config fs0 of
        Inl e \<Rightarrow> Inl e
      | Inr fs \<Rightarrow>
          (let target = p_target params; content = p_content params; mode = p_mode params;
               sid = shortSessionId sessionId
           in
           if target = Note then
             (case read_identifier ''filename'' (p_filename params) of
                Inl e \<Rightarrow> Inl e
              | Inr filename \<Rightarrow>
                  (case filename of
                     None \<Rightarrow> Inr (\<lparr>tr_text = ''Error: 'filename' is required for target 'note'.'',
                                    tr_details = []\<rparr>, fs)
                   | Some name \<Rightarrow>
                       if name = [] then
                         Inr (\<lparr>tr_text = ''Error: 'filename' is required for target 'note'.'',
                                tr_details = []\<rparr>, fs)
                       else
                         (let safe = path_basename name;
                              filePath = path_join [notesDir config, safe];
                              existing = nullish_or (readFileSafe fs filePath) ''''
                          in if mode = Some Overwrite then
                               (case writeFileSync filePath (stamp ''last updated: '' ts sid content) fs of
                                  Inl e \<Rightarrow> Inl e
                                | Inr fs' \<Rightarrow>
                                    Inr (\<lparr>tr_text = ''Wrote notes/'' @ safe,
                                           tr_details = [(''path'', filePath), (''target'', ''note''),
                                             (''mode'', ''overwrite''), (''sessionId'', sid),
                                             (''timestamp'', ts)]\<rparr>, fs'))
                             else
                               (let separator = (if trim existing \<noteq> [] then [LF, LF] else [])
                                in case writeFileSync filePath
                                          (existing @ separator @ stamp '''' ts sid content) fs of
                                     Inl e \<Rightarrow> Inl e
                                   | Inr fs' \<Rightarrow>
                                       Inr (\<lparr>tr_text = ''Appended to notes/'' @ safe,
                                              tr_details = [(''path'', filePath), (''target'', ''note''),
                                                (''mode'', ''append''), (''sessionId'', sid),
                                                (''timestamp'', ts)]\<rparr>, fs')))))
           else if target = Daily then
             (let filePath = dailyPath (dailyDir config) today;
                  existing = nullish_or (readFileSafe fs filePath) '''';
                  existingSnippet =
                    (if trim existing \<noteq> []
                     then [LF, LF] @ ''Existing daily log content:'' @ [LF] @ trim existing
                     else [LF, LF] @ ''Daily log was empty.'');
                  separator = (if trim existing \<noteq> [] then [LF, LF] else [])
              in case writeFileSync filePath (existing @ separator @ stamp '''' ts sid content) fs of
                   Inl e \<Rightarrow> Inl e
                 | Inr fs' \<Rightarrow>
                     Inr (\<lparr>tr_text = ''Appended to daily log: '' @ filePath @ existingSnippet,
                            tr_details = [(''path'', filePath), (''target'', ''daily''),
                              (''mode'', ''append''), (''sessionId'', sid), (''timestamp'', ts)]\<rparr>, fs'))
           else
             (let existing = nullish_or (readFileSafe fs (memoryFile config)) '''';
                  existingSnippet =
                    (if trim existing \<noteq> []
                     then [LF, LF] @ ''Existing MEMORY.md content:'' @ [LF] @ trim existing
                     else [LF, LF] @ ''MEMORY.md was empty.'')
              in if mode = Some Overwrite then
                   (case writeFileSync (memoryFile config) (stamp ''last updated: '' ts sid content) fs of
                      Inl e \<Rightarrow> Inl e
                    | Inr fs' \<Rightarrow>
                        Inr (\<lparr>tr_text = ''Overwrote MEMORY.md'' @ existingSnippet,
                               tr_details = [(''path'', memoryFile config), (''target'', ''long_term''),
                                 (''mode'', ''overwrite''), (''sessionId'', sid),
                                 (''timestamp'', ts)]\<rparr>, fs'))
                 else
                   (let separator = (if trim existing \<noteq> [] then [LF, LF] else [])
                    in case writeFileSync (memoryFile config)
                              (existing @ separator @ stamp '''' ts sid content) fs of
                         Inl e \<Rightarrow> Inl e
                       | Inr fs' \<Rightarrow>
                           Inr (\<lparr>tr_text = ''Appended to MEMORY.md'' @ existingSnippet,
                                  tr_details = [(''path'', memoryFile config), (''target'', ''long_term''),
                                    (''mode'', ''append''), (''sessionId'', sid),
                                    (''timestamp'', ts)]\<rparr>, fs')))))"

section \<open>Auxiliary predicates\<close>

text \<open>An item that \<open>parseScratchpad\<close> can return: its text is not empty and has no
  line terminator, its meta is empty or a comment line.\<close>

definition item_ok :: "ScratchpadItem \<Rightarrow> bool" where
  "item_ok it = (item_text it \<noteq> [] \<and> list_all regex_dot (item_text it)
     \<and> (item_meta it = [] \<or> comment_match (item_meta it)))"

text \<open>\<open>lines[i - 1]\<close> is no comment line, or \<open>i = 0\<close>.\<close>

definition not_comment :: "string option \<Rightarrow> bool" where
  "not_comment prev = (case prev of Some p \<Rightarrow> \<not> comment_match p | None \<Rightarrow> True)"

text \<open>What a read gave is blank: no content, or nothing but white space.\<close>

definition blank :: "string option \<Rightarrow> bool" where
  "blank v = (case v of None \<Rightarrow> True | Some c \<Rightarrow> trim c = [])"

text \<open>The sections \<open>buildMemoryContext\<close> pushes before it looks at the checklist (the
  context files and the long-term file) and after it (the two daily logs), and the
  string it makes of the list of sections.\<close>

definition sections_before :: "MemoryConfig \<Rightarrow> fs_state \<Rightarrow> string list" where
  "sections_before config fs =
     concat (map (\<lambda>fileName.
                file_section (''## '' @ fileName)
                  (readFileSafe fs (path_join [memoryDir config, fileName])))
              (contextFiles config))
     @ file_section ''## MEMORY.md (long-term)'' (readFileSafe fs (memoryFile config))"

definition sections_after :: "MemoryConfig \<Rightarrow> string \<Rightarrow> string \<Rightarrow> fs_state \<Rightarrow> string list" where
  "sections_after config today yesterday fs =
     file_section (''## Daily log: '' @ today @ '' (today)'')
       (readFileSafe fs (dailyPath (dailyDir config) today))
     @ file_section (''## Daily log: '' @ yesterday @ '' (yesterday)'')
         (readFileSafe fs (dailyPath (dailyDir config) yesterday))"

definition render_sections :: "string list \<Rightarrow> string" where
  "render_sections sections =
     (if sections = [] then [] else ''# Memory'' @ [LF, LF] @ join section_separator sections)"

definition open_items :: "string \<Rightarrow> ScratchpadItem list" where
  "open_items content = filter (\<lambda>i. \<not> item_done i) (parseScratchpad content)"

text \<open>A configuration and file systems for the concrete instances below.\<close>

definition example_config :: MemoryConfig where
  "example_config =
     \<lparr>memoryDir = ''/m'', memoryFile = ''/m/MEMORY.md'', scratchpadFile = ''/m/SCRATCHPAD.md'',
      dailyDir = ''/m/daily'', notesDir = ''/m/notes'', contextFiles = [''SOUL.md''],
      autocommit = False\<rparr>"

definition example_fs :: "(string \<times> string) list \<Rightarrow> (string \<times> string list) list \<Rightarrow> fs_state" where
  "example_fs files listing =
     \<lparr>fs_files = map_of files, fs_listing = map_of listing, fs_dirs = {},
      fs_mkdir_error = (\<lambda>p. False), fs_write_error = (\<lambda>p. False)\<rparr>"

definition example_files :: "(string \<times> string) list" where
  "example_files =
     [(''/m/SOUL.md'', ''Soul''),
      (''/m/MEMORY.md'', '' Fact '' @ [LF]),
      (''/m/SCRATCHPAD.md'', ''# Scratchpad'' @ [LF, LF] @ ''- [ ] Task'' @ [LF] @ ''- [x] Old'' @ [LF]),
      (''/m/daily/2026-02-18.md'', ''Today''),
      (''/m/daily/2026-02-17.md'', ''Yesterday'')]"

text \<open>
  Notions of the session log. An entry with a name: \<open>type\<close> is \<open>session_info\<close> and
  \<open>name\<close> is truthy. \<open>session_names\<close> lists the names of such entries among the given
  lines, in order. A user message: \<open>type\<close> is \<open>message\<close> and \<open>message.role\<close> is
  \<open>user\<close>; \<open>first_user_message\<close> is the first one among the lines that parse, and
  \<open>user_content\<close> its payload. A text-typed part has \<open>type\<close> \<open>text\<close>.
\<close>

definition is_named_session_info :: "json \<Rightarrow> bool" where
  "is_named_session_info e =
     (opt_prop (Some e) ''type'' = Some (JStr ''session_info'')
      \<and> truthy (opt_prop (Some e) ''name''))"

definition entry_name :: "json \<Rightarrow> json" where
  "entry_name e = (case opt_prop (Some e) ''name'' of Some n \<Rightarrow> n | None \<Rightarrow> JNull)"

fun session_names :: "json option list \<Rightarrow> json list" where
  "session_names [] = []"
| "session_names (None # rest) = session_names rest"
| "session_names (Some e # rest) =
     (if is_named_session_info e then entry_name e # session_names rest
      else session_names rest)"

definition is_user_message :: "json \<Rightarrow> bool" where
  "is_user_message e =
     (opt_prop (Some e) ''type'' = Some (JStr ''message'')
      \<and> opt_prop (opt_prop (Some e) ''message'') ''role'' = Some (JStr ''user''))"

fun first_user_message :: "json option list \<Rightarrow> json option" where
  "first_user_message [] = None"
| "first_user_message (None # rest) = first_user_message rest"
| "first_user_message (Some e # rest) =
     (if is_user_message e then Some e else first_user_message rest)"

definition user_content :: "json \<Rightarrow> json option" where
  "user_content e = opt_prop (opt_prop (Some e) ''message'') ''content''"

definition is_text_part :: "json \<Rightarrow> bool" where
  "is_text_part c = (opt_prop (Some c) ''type'' = Some (JStr ''text''))"

text \<open>
  \<open>new Date(v).getTime()\<close> on the values of the instances below: a number is the
  milliseconds since the epoch, cut to a whole number, and no date beyond 8.64e15
  milliseconds either side of the epoch; the two strings are ISO dates.
\<close>

definition example_date_ms :: "json \<Rightarrow> int option" where
  "example_date_ms v =
     (case v of
        JNum n \<Rightarrow>
          if \<bar>n\<bar> \<le> 8640000000000000
          then Some (if n < 0 then - \<lfloor>- n\<rfloor> else \<lfloor>n\<rfloor>) else None
      | JStr s \<Rightarrow>
          if s = ''2026-02-18T10:00:00.000Z'' then Some 1771408800000
          else if s = ''2026-02-16T10:00:00.000Z'' then Some 1771236000000
          else None
      | _ \<Rightarrow> None)"

definition example_now :: int where
  "example_now = 1771416000000"

text \<open>
  A line result that comes from a Markdown file of one of the three directories: its
  file is the display name of a listed file ending in \<open>.md\<close>, its line number counts
  the lines of that file's content from 1, its text is that line without trailing white
  space, and the line, in lower case, contains the needle.
\<close>

definition from_markdown_line :: "MemoryConfig \<Rightarrow> string \<Rightarrow> fs_state \<Rightarrow> LineResult \<Rightarrow> bool" where
  "from_markdown_line config needle fs r =
     (\<exists>dir pre names f content.
        (dir, pre) \<in> {(memoryDir config, ''''), (dailyDir config, ''daily''),
                       (notesDir config, ''notes'')}
        \<and> fs_listing fs dir = Some names \<and> f \<in> set names \<and> endsWith f ''.md''
        \<and> lr_file r = display_name pre f
        \<and> fs_files fs (path_join [dir, f]) = Some content
        \<and> 1 \<le> lr_line r \<and> lr_line r \<le> length (split_on LF content)
        \<and> lr_text r = trimEnd (split_on LF content ! (lr_line r - 1))
        \<and> includes_str (toLowerCase (split_on LF content ! (lr_line r - 1))) needle)"

text \<open>A number \<open>k\<close> of results that the limit \<open>m\<close> lets through: none, or the last
  one was pushed while the length, \<open>k - 1\<close>, was below the limit.\<close>

definition within_limit :: "js_number \<Rightarrow> nat \<Rightarrow> bool" where
  "within_limit m k = (k = 0 \<or> count_lt (k - 1) m)"

text \<open>The results a state holds are sound, and within the limit.\<close>

definition results_ok ::
  "MemoryConfig \<Rightarrow> string \<Rightarrow> js_number \<Rightarrow> fs_state \<Rightarrow> SearchResult \<Rightarrow> bool" where
  "results_ok config needle m fs st =
     (within_limit m (length (lineResults st))
      \<and> (\<forall>r\<in>set (lineResults st). from_markdown_line config needle fs r))"

text \<open>The three directories \<open>searchMemory\<close> visits, each with its display prefix.\<close>

definition search_root :: "MemoryConfig \<Rightarrow> string \<times> string \<Rightarrow> bool" where
  "search_root config dp =
     (dp \<in> {(memoryDir config, ''''), (dailyDir config, ''daily''), (notesDir config, ''notes'')})"

text \<open>A memory root with a JSON file and a Markdown file, and one daily log.\<close>

definition example_search_fs :: fs_state where
  "example_search_fs =
     example_fs
       [(''/m/data.json'', ''{target: true}''),
        (''/m/notes.md'', ''intro'' @ [LF] @ ''Target in md   '' @ [LF]),
        (''/m/daily/2026-02-18.md'', ''target one'' @ [LF] @ ''target two'')]
       [(''/m'', [''notes.md'', ''data.json'']),
        (''/m/daily'', [''2026-02-18.md''])]"

section \<open>Properties of the scratchpad codec\<close>

subsection \<open>split and join\<close>

lemma split_on_not_Nil: "split_on sep s \<noteq> []"
  by (induction s) (auto split: list.splits)

lemma split_on_append_sep:
  "split_on sep (a @ sep # b) = split_on sep a @ split_on sep b"
proof (induction a)
  case Nil
  show ?case by simp
next
  case (Cons c a)
  show ?case
  proof (cases "c = sep")
    case True
    with Cons show ?thesis by simp
  next
    case False
    obtain l ls where "split_on sep a = l # ls"
      using split_on_not_Nil [of sep a] by (cases "split_on sep a") auto
    with False Cons show ?thesis by simp
  qed
qed

lemma split_on_no_sep: "sep \<notin> set s \<Longrightarrow> split_on sep s = [s]"
  by (induction s) auto

lemma split_on_snoc_sep: "split_on sep (s @ [sep]) = split_on sep s @ [[]]"
  using split_on_append_sep [of sep s "[]"] by simp

lemma split_on_join:
  "ls \<noteq> [] \<Longrightarrow> \<forall>l\<in>set ls. sep \<notin> set l \<Longrightarrow> split_on sep (join [sep] ls) = ls"
proof (induction ls)
  case Nil
  then show ?case by simp
next
  case (Cons x xs)
  show ?case
  proof (cases xs)
    case Nil
    with Cons.prems show ?thesis by (simp add: split_on_no_sep)
  next
    case (Cons y ys)
    have "split_on sep (join [sep] xs) = xs"
      using Cons.IH Cons.prems Cons by simp
    moreover have "join [sep] (x # xs) = x @ sep # join [sep] xs"
      using Cons by simp
    moreover have "split_on sep x = [x]"
      using Cons.prems by (simp add: split_on_no_sep)
    ultimately show ?thesis
      by (simp only: split_on_append_sep append.simps)
  qed
qed

subsection \<open>The two patterns\<close>

lemma comment_match_shape:
  "comment_match s \<Longrightarrow> \<exists>m. s = ''<!--'' @ m @ ''-->'' \<and> list_all regex_dot m"
proof (induction s rule: comment_match.induct)
  case (1 a b c d rest)
  then have "rest = take (length rest - 3) rest @ ''-->''"
    by (metis append_take_drop_id comment_match.simps(1))
  with 1 show ?case by auto
qed auto

lemma comment_match_no_LF: "comment_match s \<Longrightarrow> LF \<notin> set s"
  by (auto dest!: comment_match_shape simp: regex_dot_def LF_def list_all_iff)

lemma comment_match_ends:
  "comment_match s \<Longrightarrow> startsWith s ''<!--'' \<and> endsWith s ''-->''"
  by (auto dest!: comment_match_shape simp: startsWith_def endsWith_def)

lemma checklist_match_Some:
  "checklist_match s = Some (k, t) \<Longrightarrow>
     t \<noteq> [] \<and> list_all regex_dot t \<and> s = ''- ['' @ [k] @ ''] '' @ t"
  by (erule checklist_match.elims) (auto split: if_splits)

lemma checklist_match_hd: "checklist_match s = Some r \<Longrightarrow> hd s = CHR ''-''"
  by (cases r) (auto dest: checklist_match_Some)

lemma comment_match_hd: "comment_match s \<Longrightarrow> hd s = CHR ''<''"
  by (auto dest!: comment_match_shape)

lemma comment_not_checklist: "comment_match s \<Longrightarrow> checklist_match s = None"
  using checklist_match_hd [of s] comment_match_hd [of s] by (cases "checklist_match s") auto

lemma checklist_line_not_comment: "\<not> comment_match (''- '' @ r)"
  using comment_match_hd [of "''- '' @ r"] by auto

subsection \<open>parse after serialize\<close>

lemma parse_item_lines:
  assumes "item_ok it" and "not_comment prev"
  shows "\<exists>l. parse_lines prev (item_lines it @ rest) = it # parse_lines (Some (''- '' @ l)) rest"
proof (cases "item_meta it = []")
  case True
  with assms show ?thesis
    by (cases prev) (auto simp: item_ok_def not_comment_def item_lines_def to_lower_char_def)
next
  case False
  with assms have c: "comment_match (item_meta it)" by (simp add: item_ok_def)
  with False assms show ?thesis
    by (auto simp: item_ok_def item_lines_def comment_not_checklist to_lower_char_def)
qed

lemma parse_items:
  assumes "\<forall>it\<in>set items. item_ok it" and "not_comment prev"
  shows "parse_lines prev (concat (map item_lines items) @ [[]]) = items"
  using assms
proof (induction items arbitrary: prev)
  case Nil
  then show ?case by simp
next
  case (Cons it items)
  then obtain l where
    "parse_lines prev (item_lines it @ (concat (map item_lines items) @ [[]]))
       = it # parse_lines (Some (''- '' @ l)) (concat (map item_lines items) @ [[]])"
    using parse_item_lines [of it prev "concat (map item_lines items) @ [[]]"] by auto
  moreover have "parse_lines (Some (''- '' @ l)) (concat (map item_lines items) @ [[]]) = items"
    using Cons.IH [of "Some (''- '' @ l)"] Cons.prems checklist_line_not_comment
    by (auto simp: not_comment_def)
  ultimately show ?case by simp
qed

lemma item_lines_no_LF:
  assumes "item_ok it"
  shows "\<forall>l\<in>set (item_lines it). LF \<notin> set l"
proof -
  have t: "LF \<notin> set (item_text it)"
    using assms by (auto simp: item_ok_def list_all_iff regex_dot_def)
  have m: "item_meta it \<noteq> [] \<Longrightarrow> LF \<notin> set (item_meta it)"
    using assms comment_match_no_LF by (auto simp: item_ok_def)
  have b: "LF \<notin> set ''- [x] ''" "LF \<notin> set ''- [ ] ''"
    by (simp_all add: LF_def)
  have "LF \<notin> set (''- '' @ (if item_done it then ''[x]'' else ''[ ]'') @ '' '' @ item_text it)"
    using t b by (cases "item_done it") simp_all
  with m show ?thesis
    by (simp add: item_lines_def)
qed

lemma split_serialize:
  assumes "\<forall>it\<in>set items. item_ok it"
  shows "split_on LF (serializeScratchpad items)
           = [''# Scratchpad'', ''''] @ concat (map item_lines items) @ [[]]"
proof -
  let ?ls = "[''# Scratchpad'', ''''] @ concat (map item_lines items)"
  have "\<forall>l\<in>set ?ls. LF \<notin> set l"
    using assms item_lines_no_LF by (auto simp: LF_def)
  then have "split_on LF (join [LF] ?ls) = ?ls"
    by (intro split_on_join) auto
  then show ?thesis
    by (simp add: serializeScratchpad_def split_on_snoc_sep del: join.simps)
qed

lemma roundtrip_item_ok:
  assumes "\<forall>it\<in>set items. item_ok it"
  shows "parseScratchpad (serializeScratchpad items) = items"
  using parse_items [OF assms, of "Some []"]
  by (simp add: parseScratchpad_def split_serialize [OF assms] not_comment_def)

lemma parse_lines_item_ok: "\<forall>it\<in>set (parse_lines prev ls). item_ok it"
proof (induction ls arbitrary: prev)
  case Nil
  show ?case by simp
next
  case (Cons l ls)
  show ?case
  proof (cases "checklist_match l")
    case None
    with Cons show ?thesis by simp
  next
    case (Some r)
    obtain k t where r: "r = (k, t)" by (cases r)
    with Some have "t \<noteq> [] \<and> list_all regex_dot t"
      using checklist_match_Some by blast
    with Some r Cons show ?thesis
      by (auto simp: item_ok_def split: option.splits)
  qed
qed

text \<open>
  Claim C1, as amended. For every list of checklist items whose texts are not empty and
  contain no line terminator (line feed or carriage return), and whose non-empty metas
  match the comment pattern, parsing the serialization gives the list back. The text of
  an item may itself match the checklist pattern.
\<close>

theorem parse_serialize_roundtrip:
  assumes "\<forall>it\<in>set items. item_text it \<noteq> [] \<and> list_all regex_dot (item_text it)
             \<and> (item_meta it \<noteq> [] \<longrightarrow> comment_match (item_meta it))"
  shows "parseScratchpad (serializeScratchpad items) = items"
  using assms by (intro roundtrip_item_ok) (auto simp: item_ok_def)

theorem parse_serialize_roundtrip_witness:
  "comment_match ''<!-- ts [sid] -->''
   \<and> parseScratchpad (serializeScratchpad
        [\<lparr>item_done = False, item_text = ''Open item'', item_meta = ''<!-- ts [sid] -->''\<rparr>,
         \<lparr>item_done = True, item_text = ''- [ ] Done item'', item_meta = ''''\<rparr>])
     = [\<lparr>item_done = False, item_text = ''Open item'', item_meta = ''<!-- ts [sid] -->''\<rparr>,
        \<lparr>item_done = True, item_text = ''- [ ] Done item'', item_meta = ''''\<rparr>]"
  using parse_serialize_roundtrip
    [of "[\<lparr>item_done = False, item_text = ''Open item'', item_meta = ''<!-- ts [sid] -->''\<rparr>,
          \<lparr>item_done = True, item_text = ''- [ ] Done item'', item_meta = ''''\<rparr>]"]
  by (simp add: regex_dot_def LF_def CR_def)

text \<open>
  Claim C1 as stated fails on an item with the empty text: the text has no newline and
  does not match the checklist pattern, the meta is empty, and the serialized line
  \<^verbatim>\<open>- [ ] \<close> is no item for \<open>parseScratchpad\<close>, whose pattern asks for one character of
  text at least.
\<close>

theorem roundtrip_empty_text_counterexample:
  "LF \<notin> set (item_text \<lparr>item_done = False, item_text = '''', item_meta = ''''\<rparr>)
   \<and> checklist_match (item_text \<lparr>item_done = False, item_text = '''', item_meta = ''''\<rparr>) = None
   \<and> item_meta \<lparr>item_done = False, item_text = '''', item_meta = ''''\<rparr> = ''''
   \<and> parseScratchpad (serializeScratchpad [\<lparr>item_done = False, item_text = '''', item_meta = ''''\<rparr>])
       = []"
  by (simp add: parseScratchpad_def serializeScratchpad_def item_lines_def LF_def)

text \<open>
  Claim C10. Every item \<open>parseScratchpad\<close> returns has a non-empty text without a
  newline (and without a carriage return), and a meta that is empty or a whole line
  matching the comment pattern: it starts with \<^verbatim>\<open><!--\<close>, ends with \<^verbatim>\<open>-->\<close> and has
  no newline. So \<open>serializeScratchpad\<close> writes a parse result line by line as it was
  read: parsing the serialization of a parse result gives the same items.
\<close>

theorem parseScratchpad_items_well_formed:
  "(\<forall>it\<in>set (parseScratchpad content).
      item_text it \<noteq> [] \<and> LF \<notin> set (item_text it) \<and> CR \<notin> set (item_text it)
      \<and> (item_meta it = []
          \<or> comment_match (item_meta it)
            \<and> startsWith (item_meta it) ''<!--'' \<and> endsWith (item_meta it) ''-->''
            \<and> LF \<notin> set (item_meta it)))
   \<and> parseScratchpad (serializeScratchpad (parseScratchpad content)) = parseScratchpad content"
proof -
  have ok: "\<forall>it\<in>set (parseScratchpad content). item_ok it"
    by (simp add: parseScratchpad_def parse_lines_item_ok)
  have "parseScratchpad (serializeScratchpad (parseScratchpad content)) = parseScratchpad content"
    using ok by (rule roundtrip_item_ok)
  moreover have "\<forall>it\<in>set (parseScratchpad content).
      item_text it \<noteq> [] \<and> LF \<notin> set (item_text it) \<and> CR \<notin> set (item_text it)
      \<and> (item_meta it = []
          \<or> comment_match (item_meta it)
            \<and> startsWith (item_meta it) ''<!--'' \<and> endsWith (item_meta it) ''-->''
            \<and> LF \<notin> set (item_meta it))"
    using ok comment_match_ends comment_match_no_LF
    by (auto simp: item_ok_def list_all_iff regex_dot_def)
  ultimately show ?thesis by simp
qed

theorem parseScratchpad_items_well_formed_witness:
  "parseScratchpad (''<!-- a -->'' @ [LF] @ ''- [X] Task'' @ [LF] @ ''- [ ] '')
     = [\<lparr>item_done = True, item_text = ''Task'', item_meta = ''<!-- a -->''\<rparr>]
   \<and> comment_match ''<!-- a -->'' \<and> startsWith ''<!-- a -->'' ''<!--''
   \<and> endsWith ''<!-- a -->'' ''-->''"
proof -
  have p: "parseScratchpad (''<!-- a -->'' @ [LF] @ ''- [X] Task'' @ [LF] @ ''- [ ] '')
     = [\<lparr>item_done = True, item_text = ''Task'', item_meta = ''<!-- a -->''\<rparr>]"
    by code_simp
  show ?thesis
    using parseScratchpad_items_well_formed
      [of "''<!-- a -->'' @ [LF] @ ''- [X] Task'' @ [LF] @ ''- [ ] ''"]
    unfolding p by simp
qed

section \<open>Properties of isHousekeeping\<close>

text \<open>
  Claim C9. \<open>isHousekeeping\<close> holds of the titles "Clear done items", "(untitled)" and
  "/reload" and not of "Fix memory bug", and it does not see the case of letters: two
  titles with the same lower-case form are classified alike.
\<close>

theorem isHousekeeping_examples:
  "isHousekeeping ''Clear done items'' \<and> isHousekeeping ''(untitled)''
   \<and> isHousekeeping ''/reload'' \<and> \<not> isHousekeeping ''Fix memory bug''
   \<and> (toLowerCase t = toLowerCase t' \<longrightarrow> isHousekeeping t = isHousekeeping t')"
proof -
  have "isHousekeeping ''Clear done items''" by code_simp
  moreover have "isHousekeeping ''(untitled)''" by code_simp
  moreover have "isHousekeeping ''/reload''" by code_simp
  moreover have "\<not> isHousekeeping ''Fix memory bug''" by code_simp
  moreover have "toLowerCase t = toLowerCase t' \<longrightarrow> isHousekeeping t = isHousekeeping t'"
    by (simp add: isHousekeeping_def)
  ultimately show ?thesis by blast
qed

theorem isHousekeeping_examples_witness:
  "toLowerCase ''cLEAR  DONE Items'' = toLowerCase ''Clear  done items''
   \<and> isHousekeeping ''cLEAR  DONE Items'' = isHousekeeping ''Clear  done items''
   \<and> isHousekeeping ''/RELOAD''"
proof -
  have l: "toLowerCase ''cLEAR  DONE Items'' = toLowerCase ''Clear  done items''"
    by code_simp
  have r: "toLowerCase ''/RELOAD'' = toLowerCase ''/reload''"
    by code_simp
  show ?thesis
    using isHousekeeping_examples [of "''cLEAR  DONE Items''" "''Clear  done items''"]
      isHousekeeping_examples [of "''/RELOAD''" "''/reload''"] l r
    by blast
qed

section \<open>Properties of buildConfig\<close>

lemma trimEnd_last: "trimEnd s \<noteq> [] \<Longrightarrow> \<not> is_js_space (last (trimEnd s))"
  unfolding trimEnd_def
  by (metis (no_types, lifting) hd_dropWhile last_rev rev_is_Nil_conv)

lemma trim_hd: "trim s \<noteq> [] \<Longrightarrow> \<not> is_js_space (hd (trim s))"
  unfolding trim_def by (rule hd_dropWhile)

lemma dropWhile_last: "dropWhile P xs \<noteq> [] \<Longrightarrow> last (dropWhile P xs) = last xs"
  by (induction xs) (auto split: if_splits)

lemma trim_last: "trim s \<noteq> [] \<Longrightarrow> \<not> is_js_space (last (trim s))"
proof -
  assume a: "trim s \<noteq> []"
  then have "trimEnd s \<noteq> []" by (auto simp: trim_def)
  then have "\<not> is_js_space (last (trimEnd s))" by (rule trimEnd_last)
  moreover have "last (trim s) = last (trimEnd s)"
    using a unfolding trim_def by (rule dropWhile_last)
  ultimately show ?thesis by simp
qed

text \<open>
  Claim C5. With only \<open>HOME = /home/u\<close> set, \<open>memoryDir\<close> is
  \<open>/home/u/.pi/agent/memory\<close> and \<open>autocommit\<close> is false. In every environment
  \<open>autocommit\<close> is true exactly when \<open>PI_AUTOCOMMIT\<close> is the string \<open>1\<close> or \<open>true\<close>
  (so not for \<open>yes\<close> or \<open>0\<close>). \<open>contextFiles\<close> is \<open>PI_CONTEXT_FILES\<close> (the empty string
  when unset) split at the commas, each piece trimmed, the empty pieces dropped, in the
  order of the input: no entry is empty or starts or ends with white space.
\<close>

theorem buildConfig_spec:
  "memoryDir (buildConfig (Map.empty(''HOME'' \<mapsto> ''/home/u''))) = ''/home/u/.pi/agent/memory''
   \<and> \<not> autocommit (buildConfig (Map.empty(''HOME'' \<mapsto> ''/home/u'')))
   \<and> (autocommit (buildConfig env)
        \<longleftrightarrow> env ''PI_AUTOCOMMIT'' = Some ''1'' \<or> env ''PI_AUTOCOMMIT'' = Some ''true'')
   \<and> \<not> autocommit (buildConfig (env(''PI_AUTOCOMMIT'' \<mapsto> ''yes'')))
   \<and> \<not> autocommit (buildConfig (env(''PI_AUTOCOMMIT'' \<mapsto> ''0'')))
   \<and> contextFiles (buildConfig env)
       = filter (\<lambda>f. f \<noteq> [])
           (map trim (split_on CHR '','' (case env ''PI_CONTEXT_FILES'' of None \<Rightarrow> [] | Some v \<Rightarrow> v)))
   \<and> (\<forall>f\<in>set (contextFiles (buildConfig env)).
         f \<noteq> [] \<and> \<not> is_js_space (hd f) \<and> \<not> is_js_space (last f))"
proof -
  have m: "memoryDir (buildConfig (Map.empty(''HOME'' \<mapsto> ''/home/u''))) = ''/home/u/.pi/agent/memory''"
    by code_simp
  have a: "\<not> autocommit (buildConfig (Map.empty(''HOME'' \<mapsto> ''/home/u'')))"
    by (simp add: buildConfig_def Let_def)
  have b: "autocommit (buildConfig env)
        \<longleftrightarrow> env ''PI_AUTOCOMMIT'' = Some ''1'' \<or> env ''PI_AUTOCOMMIT'' = Some ''true''"
    by (simp add: buildConfig_def Let_def)
  have c: "\<not> autocommit (buildConfig (env(''PI_AUTOCOMMIT'' \<mapsto> ''yes'')))"
    "\<not> autocommit (buildConfig (env(''PI_AUTOCOMMIT'' \<mapsto> ''0'')))"
    by (simp_all add: buildConfig_def Let_def)
  have d: "contextFiles (buildConfig env)
       = filter (\<lambda>f. f \<noteq> [])
           (map trim (split_on CHR '','' (case env ''PI_CONTEXT_FILES'' of None \<Rightarrow> [] | Some v \<Rightarrow> v)))"
    by (simp add: buildConfig_def Let_def nullish_or_def)
  have e: "\<forall>f\<in>set (contextFiles (buildConfig env)).
         f \<noteq> [] \<and> \<not> is_js_space (hd f) \<and> \<not> is_js_space (last f)"
    unfolding d using trim_hd trim_last by auto
  from m a b c d e show ?thesis by blast
qed

theorem buildConfig_spec_witness:
  "contextFiles (buildConfig (Map.empty(''HOME'' \<mapsto> ''/x'', ''PI_AUTOCOMMIT'' \<mapsto> ''true'',
       ''PI_CONTEXT_FILES'' \<mapsto> '' A.md ,  B.md , ''))) = [''A.md'', ''B.md'']
   \<and> autocommit (buildConfig (Map.empty(''HOME'' \<mapsto> ''/x'', ''PI_AUTOCOMMIT'' \<mapsto> ''true'',
       ''PI_CONTEXT_FILES'' \<mapsto> '' A.md ,  B.md , '')))
   \<and> \<not> is_js_space (hd ''A.md'') \<and> \<not> is_js_space (last ''B.md'')"
proof -
  let ?env = "Map.empty(''HOME'' \<mapsto> ''/x'', ''PI_AUTOCOMMIT'' \<mapsto> ''true'',
       ''PI_CONTEXT_FILES'' \<mapsto> '' A.md ,  B.md , '')"
  have c: "contextFiles (buildConfig ?env) = [''A.md'', ''B.md'']"
    by code_simp
  show ?thesis
    using buildConfig_spec [of ?env] unfolding c by simp
qed

section \<open>The note branch of memory_write\<close>

text \<open>
  Claim C2 does not hold of the code. Whenever the target is \<open>note\<close> and the
  directories could be created, \<open>execute\<close> throws a \<open>ReferenceError\<close> at
  \<^verbatim>\<open>if (!filename)\<close>, with or without a file name among the parameters: the
  destructuring of \<open>params\<close> leaves \<open>filename\<close> out, and no other scope binds the name.
  The error message the branch was written to return is never reached.
\<close>

theorem memory_write_note_throws:
  assumes "p_target params = Note" and "ensureDirs config fs = Inr fs'"
  shows "memory_write_execute config sessionId ts today params fs
           = Inl (ReferenceError ''filename'')"
proof -
  have "read_identifier ''filename'' (p_filename params) = Inl (ReferenceError ''filename'')"
    by (simp add: read_identifier_def execute_bindings_def module_bindings_def)
  with assms show ?thesis
    by (simp add: memory_write_execute_def Let_def)
qed

theorem memory_write_note_throws_witness:
  "memory_write_execute
     \<lparr>memoryDir = ''/m'', memoryFile = ''/m/MEMORY.md'', scratchpadFile = ''/m/SCRATCHPAD.md'',
      dailyDir = ''/m/daily'', notesDir = ''/m/notes'', contextFiles = [], autocommit = False\<rparr>
     ''0123456789abcdef'' ''2026-02-18 10:00:00'' ''2026-02-18''
     \<lparr>p_target = Note, p_content = ''remember this'', p_mode = None, p_filename = None\<rparr>
     \<lparr>fs_files = Map.empty, fs_listing = (\<lambda>d. None), fs_dirs = {},
      fs_mkdir_error = (\<lambda>d. False), fs_write_error = (\<lambda>d. False)\<rparr>
   = Inl (ReferenceError ''filename'')"
proof -
  let ?cfg = "\<lparr>memoryDir = ''/m'', memoryFile = ''/m/MEMORY.md'',
      scratchpadFile = ''/m/SCRATCHPAD.md'', dailyDir = ''/m/daily'', notesDir = ''/m/notes'',
      contextFiles = [], autocommit = False\<rparr>"
  let ?fs = "\<lparr>fs_files = Map.empty, fs_listing = (\<lambda>d. None), fs_dirs = {},
      fs_mkdir_error = (\<lambda>d. False), fs_write_error = (\<lambda>d. False)\<rparr>"
  have "\<exists>fs'. ensureDirs ?cfg ?fs = Inr fs'"
    by (simp add: ensureDirs_def mkdirSync_def)
  then obtain fs' where e: "ensureDirs ?cfg ?fs = Inr fs'" ..
  show ?thesis
    by (rule memory_write_note_throws [OF _ e]) simp
qed

section \<open>Properties of buildMemoryContext\<close>

lemma mkdirSync_files: "mkdirSync p fs = Inr fs' \<Longrightarrow> fs_files fs' = fs_files fs"
  by (auto simp: mkdirSync_def split: if_splits)

lemma ensureDirs_files:
  assumes "ensureDirs config fs = Inr fs'"
  shows "fs_files fs' = fs_files fs"
proof -
  from assms obtain fs1 fs2 where
    1: "mkdirSync (memoryDir config) fs = Inr fs1" and
    2: "mkdirSync (dailyDir config) fs1 = Inr fs2" and
    3: "mkdirSync (notesDir config) fs2 = Inr fs'"
    by (auto simp: ensureDirs_def split: sum.splits)
  from 3 2 1 show ?thesis
    by (simp add: mkdirSync_files)
qed

lemma buildMemoryContext_render:
  assumes "ensureDirs config fs = Inr fs1"
  shows "buildMemoryContext config today yesterday fs
           = Inr (render_sections
                    (sections_before config fs
                     @ scratchpad_section (fs_files fs (scratchpadFile config))
                     @ sections_after config today yesterday fs), fs1)"
proof -
  have f: "fs_files fs1 = fs_files fs"
    using assms by (rule ensureDirs_files)
  show ?thesis
    by (simp only: buildMemoryContext_def assms render_sections_def sections_before_def
        sections_after_def readFileSafe_def f sum.case Let_def length_0_conv append_assoc)
qed

lemma split_on_set: "l \<in> set (split_on sep s) \<Longrightarrow> set l \<subseteq> set s"
proof (induction s arbitrary: l)
  case Nil
  then show ?case by simp
next
  case (Cons c s)
  show ?case
  proof (cases "c = sep")
    case True
    with Cons show ?thesis by auto
  next
    case False
    obtain x xs where x: "split_on sep s = x # xs"
      using split_on_not_Nil [of sep s] by (cases "split_on sep s") auto
    with False Cons.prems have "l = c # x \<or> l \<in> set xs" by simp
    then show ?thesis
    proof
      assume "l = c # x"
      moreover have "set x \<subseteq> set s" using Cons.IH [of x] x by simp
      ultimately show ?thesis by auto
    next
      assume "l \<in> set xs"
      then have "set l \<subseteq> set s" using Cons.IH [of l] x by simp
      then show ?thesis by auto
    qed
  qed
qed

lemma parse_lines_item_line:
  "it \<in> set (parse_lines prev ls) \<Longrightarrow> \<exists>l\<in>set ls. \<exists>r. checklist_match l = Some r"
  by (induction ls arbitrary: prev) (auto split: option.splits)

lemma trim_Nil_all_space: "trim s = [] \<Longrightarrow> \<forall>c\<in>set s. is_js_space c"
proof -
  assume a: "trim s = []"
  then have e: "\<forall>c\<in>set (trimEnd s). is_js_space c"
    by (simp add: trim_def dropWhile_eq_Nil_conv)
  have "trimEnd s = []"
  proof (rule ccontr)
    assume n: "trimEnd s \<noteq> []"
    then have "\<not> is_js_space (last (trimEnd s))" by (rule trimEnd_last)
    with e n show False using last_in_set by blast
  qed
  then have "dropWhile is_js_space (rev s) = []" by (simp add: trimEnd_def)
  then show ?thesis by (simp add: dropWhile_eq_Nil_conv)
qed

lemma checklist_match_dash: "checklist_match l = Some r \<Longrightarrow> CHR ''-'' \<in> set l"
proof -
  assume a: "checklist_match l = Some r"
  then have "l \<noteq> []" by (cases l) simp_all
  moreover from a have "hd l = CHR ''-''" by (rule checklist_match_hd)
  ultimately show ?thesis using hd_in_set [of l] by simp
qed

lemma parse_item_not_blank:
  assumes "it \<in> set (parseScratchpad content)"
  shows "trim content \<noteq> []"
proof
  assume t: "trim content = []"
  from assms obtain l r where l: "l \<in> set (split_on LF content)" and m: "checklist_match l = Some r"
    unfolding parseScratchpad_def using parse_lines_item_line by blast
  from m have "CHR ''-'' \<in> set l" by (rule checklist_match_dash)
  moreover from l have "set l \<subseteq> set content" by (rule split_on_set)
  ultimately have "CHR ''-'' \<in> set content" by (rule rev_subsetD)
  moreover from t have "\<forall>c\<in>set content. is_js_space c" by (rule trim_Nil_all_space)
  ultimately have "is_js_space CHR ''-''" by blast
  then show False by (simp add: is_js_space_def)
qed

lemma scratchpad_section_all_done:
  "\<forall>it\<in>set (parseScratchpad s). item_done it \<Longrightarrow> scratchpad_section (Some s) = []"
  by (auto simp: scratchpad_section_def Let_def filter_empty_conv)

lemma scratchpad_section_open:
  assumes "\<exists>it\<in>set (parseScratchpad s). \<not> item_done it"
  shows "scratchpad_section (Some s)
           = [''## SCRATCHPAD.md (working context)'' @ [LF, LF] @ serializeScratchpad (open_items s)]"
proof -
  from assms have "trim s \<noteq> []" using parse_item_not_blank by blast
  moreover from assms have "open_items s \<noteq> []"
    by (auto simp: open_items_def filter_empty_conv)
  ultimately show ?thesis
    by (simp add: scratchpad_section_def Let_def open_items_def)
qed

lemma open_items_roundtrip:
  "parseScratchpad (serializeScratchpad (open_items s)) = open_items s"
proof -
  have "\<forall>it\<in>set (open_items s). item_ok it"
    using parse_lines_item_ok by (auto simp: open_items_def parseScratchpad_def)
  then show ?thesis by (rule roundtrip_item_ok)
qed

text \<open>
  Claim C7. Take a checklist file with content \<open>s\<close> (and directories that could be
  created). When every parsed item is done, or there is none, \<open>buildMemoryContext\<close>
  returns the sections before and after the checklist only: no checklist section. When
  some parsed item is open, the checklist section is the heading followed by the
  serialization of exactly the open items, in order; that serialization parses back to
  the open items, so no done item is in it.
\<close>

theorem scratchpad_section_open_items_only:
  assumes "ensureDirs config fs = Inr fs1"
    and "fs_files fs (scratchpadFile config) = Some s"
  shows "((\<forall>it\<in>set (parseScratchpad s). item_done it) \<longrightarrow>
            buildMemoryContext config today yesterday fs
              = Inr (render_sections
                       (sections_before config fs @ sections_after config today yesterday fs), fs1))
       \<and> ((\<exists>it\<in>set (parseScratchpad s). \<not> item_done it) \<longrightarrow>
            buildMemoryContext config today yesterday fs
              = Inr (render_sections
                       (sections_before config fs
                        @ [''## SCRATCHPAD.md (working context)'' @ [LF, LF]
                             @ serializeScratchpad (filter (\<lambda>i. \<not> item_done i) (parseScratchpad s))]
                        @ sections_after config today yesterday fs), fs1)
            \<and> parseScratchpad (serializeScratchpad (filter (\<lambda>i. \<not> item_done i) (parseScratchpad s)))
                = filter (\<lambda>i. \<not> item_done i) (parseScratchpad s)
            \<and> (\<forall>it\<in>set (parseScratchpad
                    (serializeScratchpad (filter (\<lambda>i. \<not> item_done i) (parseScratchpad s)))).
                  \<not> item_done it))"
proof (intro conjI impI)
  assume "\<forall>it\<in>set (parseScratchpad s). item_done it"
  then show "buildMemoryContext config today yesterday fs
      = Inr (render_sections
               (sections_before config fs @ sections_after config today yesterday fs), fs1)"
    using assms by (simp add: buildMemoryContext_render scratchpad_section_all_done)
next
  assume "\<exists>it\<in>set (parseScratchpad s). \<not> item_done it"
  then show "buildMemoryContext config today yesterday fs
      = Inr (render_sections
               (sections_before config fs
                @ [''## SCRATCHPAD.md (working context)'' @ [LF, LF]
                     @ serializeScratchpad (filter (\<lambda>i. \<not> item_done i) (parseScratchpad s))]
                @ sections_after config today yesterday fs), fs1)"
    using assms scratchpad_section_open [of s]
    by (simp add: buildMemoryContext_render open_items_def)
next
  show "parseScratchpad (serializeScratchpad (filter (\<lambda>i. \<not> item_done i) (parseScratchpad s)))
          = filter (\<lambda>i. \<not> item_done i) (parseScratchpad s)"
    using open_items_roundtrip [of s] by (simp add: open_items_def)
  then show "\<forall>it\<in>set (parseScratchpad
                    (serializeScratchpad (filter (\<lambda>i. \<not> item_done i) (parseScratchpad s)))).
                  \<not> item_done it"
    by simp
qed

lemma file_section_present:
  "trim c \<noteq> [] \<Longrightarrow> file_section h (Some c) = [h @ [LF, LF] @ trim c]"
  by (simp add: file_section_def)

lemma file_section_blank: "blank v \<Longrightarrow> file_section h v = []"
  by (cases v) (simp_all add: file_section_def blank_def)

lemma concat_map_single:
  "\<forall>x\<in>set xs. f x = [g x] \<Longrightarrow> concat (map f xs) = map g xs"
  by (induction xs) simp_all

lemma concat_map_empty:
  "\<forall>x\<in>set xs. f x = [] \<Longrightarrow> concat (map f xs) = []"
  by (induction xs) simp_all

lemma scratchpad_section_none:
  "blank v \<or> (\<exists>s. v = Some s \<and> (\<forall>it\<in>set (parseScratchpad s). item_done it))
     \<Longrightarrow> scratchpad_section v = []"
  by (cases v) (auto simp: scratchpad_section_def blank_def Let_def filter_empty_conv)

text \<open>
  Claim C6. Provided the directories could be created: when no section qualifies (every
  file read is missing or blank, and the checklist is missing, blank or without an open
  item; so on an empty memory root) \<open>buildMemoryContext\<close> returns the empty string. When
  every context file, the long-term file, today's and yesterday's logs are present and
  not blank and the checklist has an open item, the result is the heading \<open># Memory\<close>,
  a blank line, and the sections of the context files (in the configured order), the
  long-term file, the checklist, today and yesterday, in this order, joined by \<open>---\<close>
  between blank lines.
\<close>

theorem buildMemoryContext_order:
  assumes "ensureDirs config fs = Inr fs1"
  shows "((\<forall>f\<in>set (contextFiles config). blank (fs_files fs (path_join [memoryDir config, f])))
          \<and> blank (fs_files fs (memoryFile config))
          \<and> (blank (fs_files fs (scratchpadFile config))
              \<or> (\<exists>s. fs_files fs (scratchpadFile config) = Some s
                    \<and> (\<forall>it\<in>set (parseScratchpad s). item_done it)))
          \<and> blank (fs_files fs (dailyPath (dailyDir config) today))
          \<and> blank (fs_files fs (dailyPath (dailyDir config) yesterday))
          \<longrightarrow> buildMemoryContext config today yesterday fs = Inr ([], fs1))
     \<and> ((\<forall>f\<in>set (contextFiles config).
             fs_files fs (path_join [memoryDir config, f]) = Some (body f) \<and> trim (body f) \<noteq> [])
          \<and> fs_files fs (memoryFile config) = Some m \<and> trim m \<noteq> []
          \<and> fs_files fs (scratchpadFile config) = Some s
          \<and> (\<exists>it\<in>set (parseScratchpad s). \<not> item_done it)
          \<and> fs_files fs (dailyPath (dailyDir config) today) = Some t \<and> trim t \<noteq> []
          \<and> fs_files fs (dailyPath (dailyDir config) yesterday) = Some y \<and> trim y \<noteq> []
          \<longrightarrow> buildMemoryContext config today yesterday fs
                = Inr (''# Memory'' @ [LF, LF] @ join ([LF, LF] @ ''---'' @ [LF, LF])
                        (map (\<lambda>f. ''## '' @ f @ [LF, LF] @ trim (body f)) (contextFiles config)
                         @ [''## MEMORY.md (long-term)'' @ [LF, LF] @ trim m,
                            ''## SCRATCHPAD.md (working context)'' @ [LF, LF]
                              @ serializeScratchpad
                                  (filter (\<lambda>i. \<not> item_done i) (parseScratchpad s)),
                            ''## Daily log: '' @ today @ '' (today)'' @ [LF, LF] @ trim t,
                            ''## Daily log: '' @ yesterday @ '' (yesterday)'' @ [LF, LF] @ trim y]),
                       fs1))"
proof (intro conjI impI)
  assume a: "(\<forall>f\<in>set (contextFiles config). blank (fs_files fs (path_join [memoryDir config, f])))
          \<and> blank (fs_files fs (memoryFile config))
          \<and> (blank (fs_files fs (scratchpadFile config))
              \<or> (\<exists>s. fs_files fs (scratchpadFile config) = Some s
                    \<and> (\<forall>it\<in>set (parseScratchpad s). item_done it)))
          \<and> blank (fs_files fs (dailyPath (dailyDir config) today))
          \<and> blank (fs_files fs (dailyPath (dailyDir config) yesterday))"
  have "concat (map (\<lambda>fileName. file_section (''## '' @ fileName)
                  (readFileSafe fs (path_join [memoryDir config, fileName])))
              (contextFiles config)) = []"
    using a by (intro concat_map_empty) (simp add: readFileSafe_def file_section_blank)
  then have b: "sections_before config fs = []"
    using a by (simp add: sections_before_def readFileSafe_def file_section_blank)
  have c: "sections_after config today yesterday fs = []"
    using a by (simp add: sections_after_def readFileSafe_def file_section_blank)
  have d: "scratchpad_section (fs_files fs (scratchpadFile config)) = []"
    using a by (intro scratchpad_section_none) simp
  show "buildMemoryContext config today yesterday fs = Inr ([], fs1)"
    by (simp add: buildMemoryContext_render [OF assms] b c d render_sections_def)
next
  assume a: "(\<forall>f\<in>set (contextFiles config).
             fs_files fs (path_join [memoryDir config, f]) = Some (body f) \<and> trim (body f) \<noteq> [])
          \<and> fs_files fs (memoryFile config) = Some m \<and> trim m \<noteq> []
          \<and> fs_files fs (scratchpadFile config) = Some s
          \<and> (\<exists>it\<in>set (parseScratchpad s). \<not> item_done it)
          \<and> fs_files fs (dailyPath (dailyDir config) today) = Some t \<and> trim t \<noteq> []
          \<and> fs_files fs (dailyPath (dailyDir config) yesterday) = Some y \<and> trim y \<noteq> []"
  have "concat (map (\<lambda>fileName. file_section (''## '' @ fileName)
                  (readFileSafe fs (path_join [memoryDir config, fileName])))
              (contextFiles config))
        = map (\<lambda>f. (''## '' @ f) @ [LF, LF] @ trim (body f)) (contextFiles config)"
    using a by (intro concat_map_single) (simp add: readFileSafe_def file_section_present)
  then have b: "sections_before config fs
        = map (\<lambda>f. ''## '' @ f @ [LF, LF] @ trim (body f)) (contextFiles config)
          @ [''## MEMORY.md (long-term)'' @ [LF, LF] @ trim m]"
    using a by (simp add: sections_before_def readFileSafe_def file_section_present)
  have c: "sections_after config today yesterday fs
        = [''## Daily log: '' @ today @ '' (today)'' @ [LF, LF] @ trim t,
           ''## Daily log: '' @ yesterday @ '' (yesterday)'' @ [LF, LF] @ trim y]"
    using a by (simp add: sections_after_def readFileSafe_def file_section_present)
  have d: "scratchpad_section (fs_files fs (scratchpadFile config))
        = [''## SCRATCHPAD.md (working context)'' @ [LF, LF]
             @ serializeScratchpad (filter (\<lambda>i. \<not> item_done i) (parseScratchpad s))]"
    using a scratchpad_section_open [of s] by (simp add: open_items_def)
  show "buildMemoryContext config today yesterday fs
                = Inr (''# Memory'' @ [LF, LF] @ join ([LF, LF] @ ''---'' @ [LF, LF])
                        (map (\<lambda>f. ''## '' @ f @ [LF, LF] @ trim (body f)) (contextFiles config)
                         @ [''## MEMORY.md (long-term)'' @ [LF, LF] @ trim m,
                            ''## SCRATCHPAD.md (working context)'' @ [LF, LF]
                              @ serializeScratchpad
                                  (filter (\<lambda>i. \<not> item_done i) (parseScratchpad s)),
                            ''## Daily log: '' @ today @ '' (today)'' @ [LF, LF] @ trim t,
                            ''## Daily log: '' @ yesterday @ '' (yesterday)'' @ [LF, LF] @ trim y]),
                       fs1)"
    unfolding buildMemoryContext_render [OF assms] b c d render_sections_def section_separator_def
    by (simp del: join.simps)
qed

lemma example_ensureDirs:
  "ensureDirs example_config (example_fs files listing)
     = Inr ((example_fs files listing)\<lparr>fs_dirs := {''/m'', ''/m/daily'', ''/m/notes''}\<rparr>)"
  by (auto simp: ensureDirs_def mkdirSync_def example_config_def example_fs_def)

theorem buildMemoryContext_order_witness:
  "buildMemoryContext example_config ''2026-02-18'' ''2026-02-17'' (example_fs example_files [])
     = Inr (''# Memory'' @ [LF, LF]
            @ ''## SOUL.md'' @ [LF, LF] @ ''Soul''
            @ [LF, LF] @ ''---'' @ [LF, LF]
            @ ''## MEMORY.md (long-term)'' @ [LF, LF] @ ''Fact''
            @ [LF, LF] @ ''---'' @ [LF, LF]
            @ ''## SCRATCHPAD.md (working context)'' @ [LF, LF]
            @ ''# Scratchpad'' @ [LF, LF] @ ''- [ ] Task'' @ [LF]
            @ [LF, LF] @ ''---'' @ [LF, LF]
            @ ''## Daily log: 2026-02-18 (today)'' @ [LF, LF] @ ''Today''
            @ [LF, LF] @ ''---'' @ [LF, LF]
            @ ''## Daily log: 2026-02-17 (yesterday)'' @ [LF, LF] @ ''Yesterday'',
            (example_fs example_files [])\<lparr>fs_dirs := {''/m'', ''/m/daily'', ''/m/notes''}\<rparr>)
   \<and> buildMemoryContext example_config ''2026-02-18'' ''2026-02-17'' (example_fs [] [])
     = Inr ([], (example_fs [] [])\<lparr>fs_dirs := {''/m'', ''/m/daily'', ''/m/notes''}\<rparr>)"
proof -
  let ?fs = "example_fs example_files []"
  let ?s = "''# Scratchpad'' @ [LF, LF] @ ''- [ ] Task'' @ [LF] @ ''- [x] Old'' @ [LF]"
  have h: "(\<forall>f\<in>set (contextFiles example_config).
             fs_files ?fs (path_join [memoryDir example_config, f]) = Some ((\<lambda>f. ''Soul'') f)
             \<and> trim ((\<lambda>f. ''Soul'') f) \<noteq> [])
          \<and> fs_files ?fs (memoryFile example_config) = Some ('' Fact '' @ [LF])
          \<and> trim ('' Fact '' @ [LF]) \<noteq> []
          \<and> fs_files ?fs (scratchpadFile example_config) = Some ?s
          \<and> (\<exists>it\<in>set (parseScratchpad ?s). \<not> item_done it)
          \<and> fs_files ?fs (dailyPath (dailyDir example_config) ''2026-02-18'') = Some ''Today''
          \<and> trim ''Today'' \<noteq> []
          \<and> fs_files ?fs (dailyPath (dailyDir example_config) ''2026-02-17'') = Some ''Yesterday''
          \<and> trim ''Yesterday'' \<noteq> []"
    by code_simp
  have r: "''# Memory'' @ [LF, LF] @ join ([LF, LF] @ ''---'' @ [LF, LF])
             (map (\<lambda>f. ''## '' @ f @ [LF, LF] @ trim ((\<lambda>f. ''Soul'') f)) (contextFiles example_config)
              @ [''## MEMORY.md (long-term)'' @ [LF, LF] @ trim ('' Fact '' @ [LF]),
                 ''## SCRATCHPAD.md (working context)'' @ [LF, LF]
                   @ serializeScratchpad (filter (\<lambda>i. \<not> item_done i) (parseScratchpad ?s)),
                 ''## Daily log: '' @ ''2026-02-18'' @ '' (today)'' @ [LF, LF] @ trim ''Today'',
                 ''## Daily log: '' @ ''2026-02-17'' @ '' (yesterday)'' @ [LF, LF] @ trim ''Yesterday''])
        = ''# Memory'' @ [LF, LF]
            @ ''## SOUL.md'' @ [LF, LF] @ ''Soul''
            @ [LF, LF] @ ''---'' @ [LF, LF]
            @ ''## MEMORY.md (long-term)'' @ [LF, LF] @ ''Fact''
            @ [LF, LF] @ ''---'' @ [LF, LF]
            @ ''## SCRATCHPAD.md (working context)'' @ [LF, LF]
            @ ''# Scratchpad'' @ [LF, LF] @ ''- [ ] Task'' @ [LF]
            @ [LF, LF] @ ''---'' @ [LF, LF]
            @ ''## Daily log: 2026-02-18 (today)'' @ [LF, LF] @ ''Today''
            @ [LF, LF] @ ''---'' @ [LF, LF]
            @ ''## Daily log: 2026-02-17 (yesterday)'' @ [LF, LF] @ ''Yesterday''"
    by code_simp
  have e: "(\<forall>f\<in>set (contextFiles example_config).
              blank (fs_files (example_fs [] []) (path_join [memoryDir example_config, f])))
          \<and> blank (fs_files (example_fs [] []) (memoryFile example_config))
          \<and> (blank (fs_files (example_fs [] []) (scratchpadFile example_config))
              \<or> (\<exists>s. fs_files (example_fs [] []) (scratchpadFile example_config) = Some s
                    \<and> (\<forall>it\<in>set (parseScratchpad s). item_done it)))
          \<and> blank (fs_files (example_fs [] []) (dailyPath (dailyDir example_config) ''2026-02-18''))
          \<and> blank (fs_files (example_fs [] []) (dailyPath (dailyDir example_config) ''2026-02-17''))"
    by (simp add: example_fs_def blank_def)
  from buildMemoryContext_order [OF example_ensureDirs, THEN conjunct2, THEN mp, OF h]
    buildMemoryContext_order [OF example_ensureDirs, THEN conjunct1, THEN mp, OF e]
  show ?thesis
    unfolding r by simp
qed

theorem scratchpad_section_open_items_only_witness:
  "buildMemoryContext example_config ''2026-02-18'' ''2026-02-17''
     (example_fs [(''/m/SCRATCHPAD.md'', ''- [x] Old'' @ [LF] @ ''<!-- a -->'' @ [LF] @ ''- [ ] Task'')] [])
     = Inr (''# Memory'' @ [LF, LF] @ ''## SCRATCHPAD.md (working context)'' @ [LF, LF]
              @ ''# Scratchpad'' @ [LF, LF] @ ''<!-- a -->'' @ [LF] @ ''- [ ] Task'' @ [LF],
            (example_fs [(''/m/SCRATCHPAD.md'', ''- [x] Old'' @ [LF] @ ''<!-- a -->'' @ [LF] @ ''- [ ] Task'')] [])
              \<lparr>fs_dirs := {''/m'', ''/m/daily'', ''/m/notes''}\<rparr>)
   \<and> buildMemoryContext example_config ''2026-02-18'' ''2026-02-17''
       (example_fs [(''/m/SCRATCHPAD.md'', ''- [x] Old'' @ [LF] @ ''- [X] Older'')] [])
     = Inr ([], (example_fs [(''/m/SCRATCHPAD.md'', ''- [x] Old'' @ [LF] @ ''- [X] Older'')] [])
              \<lparr>fs_dirs := {''/m'', ''/m/daily'', ''/m/notes''}\<rparr>)"
proof -
  let ?s = "''- [x] Old'' @ [LF] @ ''<!-- a -->'' @ [LF] @ ''- [ ] Task''"
  let ?d = "''- [x] Old'' @ [LF] @ ''- [X] Older''"
  have f1: "fs_files (example_fs [(''/m/SCRATCHPAD.md'', ?s)] []) (scratchpadFile example_config) = Some ?s"
    by (simp add: example_fs_def example_config_def)
  have f2: "fs_files (example_fs [(''/m/SCRATCHPAD.md'', ?d)] []) (scratchpadFile example_config) = Some ?d"
    by (simp add: example_fs_def example_config_def)
  have o: "\<exists>it\<in>set (parseScratchpad ?s). \<not> item_done it" by code_simp
  have a: "\<forall>it\<in>set (parseScratchpad ?d). item_done it" by code_simp
  have r1: "render_sections
              (sections_before example_config (example_fs [(''/m/SCRATCHPAD.md'', ?s)] [])
               @ [''## SCRATCHPAD.md (working context)'' @ [LF, LF]
                    @ serializeScratchpad (filter (\<lambda>i. \<not> item_done i) (parseScratchpad ?s))]
               @ sections_after example_config ''2026-02-18'' ''2026-02-17''
                   (example_fs [(''/m/SCRATCHPAD.md'', ?s)] []))
            = ''# Memory'' @ [LF, LF] @ ''## SCRATCHPAD.md (working context)'' @ [LF, LF]
              @ ''# Scratchpad'' @ [LF, LF] @ ''<!-- a -->'' @ [LF] @ ''- [ ] Task'' @ [LF]"
    by code_simp
  have r2: "render_sections
              (sections_before example_config (example_fs [(''/m/SCRATCHPAD.md'', ?d)] [])
               @ sections_after example_config ''2026-02-18'' ''2026-02-17''
                   (example_fs [(''/m/SCRATCHPAD.md'', ?d)] []))
            = []"
    by code_simp
  note x = scratchpad_section_open_items_only
    [where today = "''2026-02-18''" and yesterday = "''2026-02-17''",
      OF example_ensureDirs f1, THEN conjunct2, THEN mp, OF o, THEN conjunct1]
  note y = scratchpad_section_open_items_only
    [where today = "''2026-02-18''" and yesterday = "''2026-02-17''",
      OF example_ensureDirs f2, THEN conjunct1, THEN mp, OF a]
  from x [unfolded r1] y [unfolded r2] show ?thesis
    by (rule conjI)
qed

section \<open>Properties of scanSession\<close>

subsection \<open>Rejected logs\<close>

lemma opt_prop_get_prop: "get_prop v k = Inr r \<Longrightarrow> opt_prop v k = r"
  by (simp add: opt_prop_def)

lemma get_prop_Some_cases:
  "get_prop (Some h) k = Inl TypeError \<or> get_prop (Some h) k = Inr (opt_prop (Some h) k)"
  by (cases h) (simp_all add: opt_prop_def)

lemma scan_first_pass_header:
  "scan_first_pass date_ms now (Some h # rest) = Scanned hd' title cost n \<Longrightarrow> hd' = Some h"
  by (auto simp: scan_first_pass_def Let_def split: sum.splits if_splits)

lemma scanSession_no_timestamp:
  assumes "\<not> truthy (opt_prop (Some h) ''timestamp'')"
  shows "scanSession date_ms now filePath (Some (Some h # rest)) = None"
proof (cases "scan_first_pass date_ms now (Some h # rest)")
  case (Rejected n)
  then show ?thesis by (simp add: scanSession_def)
next
  case (Scanned hd' title cost n)
  then have "hd' = Some h" by (rule scan_first_pass_header)
  with Scanned assms show ?thesis
    by (cases "opt_prop (Some h) ''timestamp''") (simp_all add: scanSession_def Let_def)
qed

lemma scan_first_pass_stale:
  assumes "opt_prop (Some h) ''timestamp'' = Some ts" and "truthy (Some ts)"
    and "date_ms ts = Some t" and "t < now - LOOKBACK_MS"
  shows "scan_first_pass date_ms now (Some h # rest) = Rejected 1"
proof -
  from get_prop_Some_cases [of h "''timestamp''"] show ?thesis
  proof
    assume "get_prop (Some h) ''timestamp'' = Inl TypeError"
    then show ?thesis by (simp add: scan_first_pass_def)
  next
    assume "get_prop (Some h) ''timestamp'' = Inr (opt_prop (Some h) ''timestamp'')"
    with assms show ?thesis by (simp add: scan_first_pass_def)
  qed
qed

text \<open>
  Claim C3, as amended. \<open>scanSession\<close> returns \<open>null\<close> when the first line does not
  parse, when the header has no \<open>timestamp\<close> (or a falsy one), and when the date of the
  header's \<open>timestamp\<close> is more than 24 hours before now. When the stale timestamp
  is a truthy value the first loop returns at \<open>lineNum = 1\<close>: no further line is read.
\<close>

theorem scanSession_rejects:
  "scanSession date_ms now filePath (Some (None # rest)) = None
   \<and> (opt_prop (Some h) ''timestamp'' = None \<longrightarrow>
        scanSession date_ms now filePath (Some (Some h # rest)) = None)
   \<and> (\<not> truthy (opt_prop (Some h) ''timestamp'') \<longrightarrow>
        scanSession date_ms now filePath (Some (Some h # rest)) = None)
   \<and> (opt_prop (Some h) ''timestamp'' = Some ts \<and> date_ms ts = Some t \<and> t < now - LOOKBACK_MS \<longrightarrow>
        scanSession date_ms now filePath (Some (Some h # rest)) = None)
   \<and> (opt_prop (Some h) ''timestamp'' = Some ts \<and> truthy (Some ts)
        \<and> date_ms ts = Some t \<and> t < now - LOOKBACK_MS \<longrightarrow>
        scan_first_pass date_ms now (Some h # rest) = Rejected 1)"
proof (intro conjI impI)
  show "scanSession date_ms now filePath (Some (None # rest)) = None"
    by (simp add: scanSession_def scan_first_pass_def)
next
  assume "opt_prop (Some h) ''timestamp'' = None"
  then have "\<not> truthy (opt_prop (Some h) ''timestamp'')" by simp
  then show "scanSession date_ms now filePath (Some (Some h # rest)) = None"
    by (rule scanSession_no_timestamp)
next
  assume "\<not> truthy (opt_prop (Some h) ''timestamp'')"
  then show "scanSession date_ms now filePath (Some (Some h # rest)) = None"
    by (rule scanSession_no_timestamp)
next
  assume a: "opt_prop (Some h) ''timestamp'' = Some ts \<and> date_ms ts = Some t \<and> t < now - LOOKBACK_MS"
  show "scanSession date_ms now filePath (Some (Some h # rest)) = None"
  proof (cases "truthy (Some ts)")
    case True
    with a have "scan_first_pass date_ms now (Some h # rest) = Rejected 1"
      using scan_first_pass_stale [of h ts date_ms t now rest] by simp
    then show ?thesis by (simp add: scanSession_def)
  next
    case False
    with a have "\<not> truthy (opt_prop (Some h) ''timestamp'')" by simp
    then show ?thesis by (rule scanSession_no_timestamp)
  qed
next
  assume "opt_prop (Some h) ''timestamp'' = Some ts \<and> truthy (Some ts)
        \<and> date_ms ts = Some t \<and> t < now - LOOKBACK_MS"
  then show "scan_first_pass date_ms now (Some h # rest) = Rejected 1"
    using scan_first_pass_stale [of h ts date_ms t now rest] by simp
qed

theorem scanSession_rejects_witness:
  "scanSession example_date_ms example_now ''s.jsonl''
     (Some [Some (JObj [(''timestamp'', JStr ''2026-02-16T10:00:00.000Z'')]),
            Some (JObj [(''type'', JStr ''session_info''), (''name'', JStr ''Old work'')])]) = None
   \<and> scan_first_pass example_date_ms example_now
       [Some (JObj [(''timestamp'', JStr ''2026-02-16T10:00:00.000Z'')]),
        Some (JObj [(''type'', JStr ''session_info''), (''name'', JStr ''Old work'')])] = Rejected 1
   \<and> scanSession example_date_ms example_now ''s.jsonl''
       (Some [Some (JObj [(''cwd'', JStr ''/project'')])]) = None"
proof -
  let ?h = "JObj [(''timestamp'', JStr ''2026-02-16T10:00:00.000Z'')]"
  let ?ts = "JStr ''2026-02-16T10:00:00.000Z''"
  have 1: "opt_prop (Some ?h) ''timestamp'' = Some ?ts" by (simp add: opt_prop_def)
  have 2: "truthy (Some ?ts)" by simp
  have 3: "example_date_ms ?ts = Some 1771236000000" by (simp add: example_date_ms_def)
  have 4: "(1771236000000::int) < example_now - LOOKBACK_MS"
    by (simp add: example_now_def LOOKBACK_MS_def)
  have 5: "opt_prop (Some (JObj [(''cwd'', JStr ''/project'')])) ''timestamp'' = None"
    by (simp add: opt_prop_def)
  note c = scanSession_rejects
    [where date_ms = example_date_ms and now = example_now and filePath = "''s.jsonl''"
       and ts = "?ts" and t = 1771236000000]
  from c [where h = "?h"
        and rest = "[Some (JObj [(''type'', JStr ''session_info''), (''name'', JStr ''Old work'')])]"]
    1 2 3 4
  have "scanSession example_date_ms example_now ''s.jsonl''
     (Some [Some ?h,
            Some (JObj [(''type'', JStr ''session_info''), (''name'', JStr ''Old work'')])]) = None
   \<and> scan_first_pass example_date_ms example_now
       [Some ?h,
        Some (JObj [(''type'', JStr ''session_info''), (''name'', JStr ''Old work'')])] = Rejected 1"
    by blast
  moreover from c [where h = "JObj [(''cwd'', JStr ''/project'')]" and rest = "[]"] 5
  have "scanSession example_date_ms example_now ''s.jsonl''
       (Some [Some (JObj [(''cwd'', JStr ''/project'')])]) = None"
    by blast
  ultimately show ?thesis by blast
qed

text \<open>
  Claim C3 as stated fails on a header whose \<open>timestamp\<close> is the number 0: the date
  is the epoch, long before the cutoff, but the guard \<^verbatim>\<open>header.timestamp &&\<close> skips the
  test on a falsy value, and the first loop reads the second line (it takes the title
  from it) before the check after the loop returns \<open>null\<close>.
\<close>

theorem stale_falsy_timestamp_counterexample:
  "opt_prop (Some (JObj [(''timestamp'', JNum 0)])) ''timestamp'' = Some (JNum 0)
   \<and> example_date_ms (JNum 0) = Some 0
   \<and> 0 < example_now - LOOKBACK_MS
   \<and> scan_first_pass example_date_ms example_now
       [Some (JObj [(''timestamp'', JNum 0)]),
        Some (JObj [(''type'', JStr ''session_info''), (''name'', JStr ''Old work'')])]
      = Scanned (Some (JObj [(''timestamp'', JNum 0)])) (JStr ''Old work'') [] 2
   \<and> scanSession example_date_ms example_now ''s.jsonl''
       (Some [Some (JObj [(''timestamp'', JNum 0)]),
              Some (JObj [(''type'', JStr ''session_info''), (''name'', JStr ''Old work'')])])
      = None"
  by (simp add: opt_prop_def example_date_ms_def example_now_def LOOKBACK_MS_def
      scan_first_pass_def scan_entry_def scanSession_def)

subsection \<open>The title\<close>

lemma opt_prop_JNull: "opt_prop (Some JNull) k = None"
  by (simp add: opt_prop_def)

lemma get_prop_not_null:
  "opt_prop (Some e) k = Some v \<Longrightarrow> get_prop (Some e) k = Inr (Some v)"
  by (cases e) (simp_all add: opt_prop_def)

lemma get_prop_Inr: "get_prop (Some e) k = Inr r \<Longrightarrow> r = opt_prop (Some e) k"
  by (simp add: opt_prop_def)

lemma scan_entry_title:
  "fst (scan_entry (Some e) st) = (if is_named_session_info e then entry_name e else fst st)"
proof (cases "get_prop (Some e) ''type''")
  case (Inl err)
  then have "opt_prop (Some e) ''type'' = None" by (simp add: opt_prop_def)
  with Inl show ?thesis by (simp add: scan_entry_def is_named_session_info_def)
next
  case (Inr ty)
  then have ty: "ty = opt_prop (Some e) ''type''" by (rule get_prop_Inr)
  show ?thesis
  proof (cases "opt_prop (Some e) ''name''")
    case None
    with Inr show ?thesis
      by (simp add: scan_entry_def is_named_session_info_def Let_def)
  next
    case (Some n)
    with Inr ty show ?thesis
      by (simp add: scan_entry_def is_named_session_info_def entry_name_def Let_def)
  qed
qed

lemma scan_entries_title:
  "fst (scan_entries rest st)
     = (if session_names rest = [] then fst st else last (session_names rest))"
proof (induction rest arbitrary: st)
  case Nil
  show ?case by simp
next
  case (Cons l rest)
  show ?case
  proof (cases l)
    case None
    with Cons show ?thesis by (simp add: scan_entry_def)
  next
    case (Some e)
    with Cons [of "scan_entry (Some e) st"] show ?thesis
      by (simp add: scan_entry_title)
  qed
qed

lemma session_names_truthy: "n \<in> set (session_names rest) \<Longrightarrow> truthy (Some n)"
proof (induction rest rule: session_names.induct)
  case 1
  then show ?case by simp
next
  case (2 rest)
  then show ?case by simp
next
  case (3 e rest)
  show ?case
  proof (cases "n = entry_name e \<and> is_named_session_info e")
    case True
    then show ?thesis
      by (cases "opt_prop (Some e) ''name''")
         (simp_all add: is_named_session_info_def entry_name_def)
  next
    case False
    with 3 show ?thesis by (auto split: if_splits)
  qed
qed

lemma user_entry_title_not_user:
  "\<not> is_user_message e \<Longrightarrow>
     user_entry_title e = Inr Continue \<or> (\<exists>err. user_entry_title e = Inl err)"
proof (cases "get_prop (Some e) ''type''")
  case (Inl err)
  then show ?thesis by (simp add: user_entry_title_def)
next
  case (Inr ty)
  assume n: "\<not> is_user_message e"
  from Inr have "ty = opt_prop (Some e) ''type''" by (rule get_prop_Inr)
  with Inr n show ?thesis
    by (auto simp: user_entry_title_def is_user_message_def Let_def)
qed

lemma first_user_title_none:
  "first_user_message ls = None \<Longrightarrow> first_user_title ls = JStr ''''"
proof (induction ls rule: first_user_message.induct)
  case 1
  then show ?case by simp
next
  case (2 rest)
  then show ?case by simp
next
  case (3 e rest)
  then have n: "\<not> is_user_message e" and r: "first_user_message rest = None"
    by (auto split: if_splits)
  from user_entry_title_not_user [OF n] 3 n r show ?case
    by auto
qed

lemma first_user_title_break:
  "first_user_message ls = Some u \<Longrightarrow> user_entry_title u = Inr (Break t)
     \<Longrightarrow> first_user_title ls = t"
proof (induction ls rule: first_user_message.induct)
  case 1
  then show ?case by simp
next
  case (2 rest)
  then show ?case by simp
next
  case (3 e rest)
  show ?case
  proof (cases "is_user_message e")
    case True
    with 3 show ?thesis by simp
  next
    case False
    with 3 have "first_user_title rest = t" by simp
    with user_entry_title_not_user [OF False] show ?thesis by auto
  qed
qed

lemma first_user_message_is_user:
  "first_user_message ls = Some u \<Longrightarrow> is_user_message u"
  by (induction ls rule: first_user_message.induct) (auto split: if_splits)

lemma user_message_content:
  assumes "is_user_message u"
  shows "get_prop (Some u) ''type'' = Inr (Some (JStr ''message''))"
    and "get_prop (opt_prop (Some u) ''message'') ''content'' = Inr (user_content u)"
proof -
  from assms show "get_prop (Some u) ''type'' = Inr (Some (JStr ''message''))"
    by (simp add: is_user_message_def get_prop_not_null)
  from assms obtain m where m: "opt_prop (Some u) ''message'' = Some m"
    by (cases "opt_prop (Some u) ''message''") (auto simp: is_user_message_def opt_prop_def)
  with assms have "opt_prop (Some m) ''role'' = Some (JStr ''user'')"
    by (simp add: is_user_message_def)
  then have "m \<noteq> JNull" by (auto simp: opt_prop_JNull)
  then have "get_prop (Some m) ''content'' = Inr (opt_prop (Some m) ''content'')"
    using get_prop_Some_cases [of m "''content''"] by (cases m) simp_all
  with m show "get_prop (opt_prop (Some u) ''message'') ''content'' = Inr (user_content u)"
    by (simp add: user_content_def)
qed

lemma user_entry_title_string:
  assumes "is_user_message u" and "user_content u = Some (JStr s)"
  shows "user_entry_title u = Inr (Break (JStr (take 80 s)))"
  using assms user_message_content [OF assms(1)]
  by (simp add: user_entry_title_def is_user_message_def Let_def)

lemma find_text_find:
  "JNull \<notin> set (takeWhile (\<lambda>c. \<not> is_text_part c) parts)
     \<Longrightarrow> find_text parts = Inr (List.find is_text_part parts)"
proof (induction parts)
  case Nil
  show ?case by simp
next
  case (Cons c cs)
  show ?case
  proof (cases "is_text_part c")
    case True
    then have "get_prop (Some c) ''type'' = Inr (Some (JStr ''text''))"
      by (simp add: is_text_part_def get_prop_not_null)
    with True show ?thesis by simp
  next
    case False
    with Cons.prems have c: "c \<noteq> JNull" by auto
    then have g: "get_prop (Some c) ''type'' = Inr (opt_prop (Some c) ''type'')"
      using get_prop_Some_cases [of c "''type''"] by (cases c) simp_all
    from False have nt: "opt_prop (Some c) ''type'' \<noteq> Some (JStr ''text'')"
      by (simp add: is_text_part_def)
    from False Cons have "find_text cs = Inr (List.find is_text_part cs)" by simp
    with False g nt show ?thesis by simp
  qed
qed

lemma find_is_text_part: "List.find is_text_part parts = Some p \<Longrightarrow> is_text_part p"
  by (induction parts) (auto split: if_splits)

lemma user_entry_title_parts:
  assumes "is_user_message u" and "user_content u = Some (JArr parts)"
    and "JNull \<notin> set (takeWhile (\<lambda>c. \<not> is_text_part c) parts)"
    and "List.find is_text_part parts = Some p"
    and "opt_prop (Some p) ''text'' = Some (JStr t)"
  shows "user_entry_title u = Inr (Break (JStr (take 80 t)))"
proof -
  have f: "find_text parts = Inr (Some p)"
    using assms(3,4) by (simp add: find_text_find)
  have g: "get_prop (Some p) ''text'' = Inr (Some (JStr t))"
    using assms(5) by (rule get_prop_not_null)
  show ?thesis
    using assms(1,2) user_message_content [OF assms(1)] f g
    by (simp add: user_entry_title_def is_user_message_def Let_def)
qed

lemma scanSession_title:
  assumes "scanSession date_ms now filePath (Some lines) = Some info"
  shows "si_title info =
           (if session_names (tl lines) \<noteq> [] then last (session_names (tl lines))
            else if truthy (Some (first_user_title lines)) then first_user_title lines
            else JStr ''(untitled)'')"
proof -
  from assms obtain header title cost n where
    s: "scan_first_pass date_ms now lines = Scanned header title cost n"
    by (cases "scan_first_pass date_ms now lines") (simp_all add: scanSession_def)
  have t: "title = fst (scan_entries (tl lines) (JStr '''', []))"
    using s
    by (cases lines)
       (auto simp: scan_first_pass_def Let_def split: option.splits sum.splits if_splits)
  have v: "si_title info =
      (let title2 = (if \<not> truthy (Some title) then first_user_title lines else title)
       in if truthy (Some title2) then title2 else JStr ''(untitled)'')"
    using assms s
    by (auto simp: scanSession_def Let_def split: option.splits if_splits)
  show ?thesis
  proof (cases "session_names (tl lines) = []")
    case True
    with t have "title = JStr ''''" by (simp add: scan_entries_title)
    with v True show ?thesis by (simp add: Let_def)
  next
    case False
    with t have l: "title = last (session_names (tl lines))" by (simp add: scan_entries_title)
    with False have "truthy (Some title)"
      using session_names_truthy [of title "tl lines"] last_in_set by auto
    with v l False show ?thesis by (simp add: Let_def)
  qed
qed

text \<open>
  Claim C4, as amended. For every log \<open>scanSession\<close> accepts: when a \<open>session_info\<close>
  entry with a name stands after the header, the title is the name of the last one,
  whatever the user messages. Otherwise, when the first user message has a non-empty
  string payload, the title is its first 80 characters; when it has a list payload
  whose first text-typed part (no \<open>null\<close> part before it) holds a non-empty string,
  the title is the first 80 characters of that; when its payload is the empty string,
  or there is no user message, the title is \<open>(untitled)\<close>.
\<close>

theorem scanSession_title_cases:
  assumes "scanSession date_ms now filePath (Some lines) = Some info"
  shows "(session_names (tl lines) \<noteq> [] \<longrightarrow> si_title info = last (session_names (tl lines)))
     \<and> (session_names (tl lines) = [] \<and> first_user_message lines = Some u
          \<and> user_content u = Some (JStr s) \<and> s \<noteq> []
          \<longrightarrow> si_title info = JStr (take 80 s) \<and> length (take 80 s) \<le> 80)
     \<and> (session_names (tl lines) = [] \<and> first_user_message lines = Some u
          \<and> user_content u = Some (JArr parts)
          \<and> JNull \<notin> set (takeWhile (\<lambda>c. \<not> is_text_part c) parts)
          \<and> List.find is_text_part parts = Some p
          \<and> opt_prop (Some p) ''text'' = Some (JStr t) \<and> t \<noteq> []
          \<longrightarrow> si_title info = JStr (take 80 t) \<and> length (take 80 t) \<le> 80)
     \<and> (session_names (tl lines) = [] \<and> first_user_message lines = Some u
          \<and> user_content u = Some (JStr [])
          \<longrightarrow> si_title info = JStr ''(untitled)'')
     \<and> (session_names (tl lines) = [] \<and> first_user_message lines = None
          \<longrightarrow> si_title info = JStr ''(untitled)'')"
proof (intro conjI impI)
  assume "session_names (tl lines) \<noteq> []"
  then show "si_title info = last (session_names (tl lines))"
    by (simp add: scanSession_title [OF assms])
next
  assume a: "session_names (tl lines) = [] \<and> first_user_message lines = Some u
          \<and> user_content u = Some (JStr s) \<and> s \<noteq> []"
  then have "is_user_message u" using first_user_message_is_user by blast
  with a have "user_entry_title u = Inr (Break (JStr (take 80 s)))"
    by (simp add: user_entry_title_string)
  with a have "first_user_title lines = JStr (take 80 s)"
    using first_user_title_break by blast
  with a show "si_title info = JStr (take 80 s)"
    by (simp add: scanSession_title [OF assms])
  show "length (take 80 s) \<le> 80" by simp
next
  assume a: "session_names (tl lines) = [] \<and> first_user_message lines = Some u
          \<and> user_content u = Some (JArr parts)
          \<and> JNull \<notin> set (takeWhile (\<lambda>c. \<not> is_text_part c) parts)
          \<and> List.find is_text_part parts = Some p
          \<and> opt_prop (Some p) ''text'' = Some (JStr t) \<and> t \<noteq> []"
  then have "is_user_message u" using first_user_message_is_user by blast
  with a have "user_entry_title u = Inr (Break (JStr (take 80 t)))"
    using user_entry_title_parts [of u parts p t] by simp
  with a have "first_user_title lines = JStr (take 80 t)"
    using first_user_title_break by blast
  with a show "si_title info = JStr (take 80 t)"
    by (simp add: scanSession_title [OF assms])
  show "length (take 80 t) \<le> 80" by simp
next
  assume a: "session_names (tl lines) = [] \<and> first_user_message lines = Some u
          \<and> user_content u = Some (JStr [])"
  then have "is_user_message u" using first_user_message_is_user by blast
  with a have "user_entry_title u = Inr (Break (JStr (take 80 [])))"
    by (simp add: user_entry_title_string)
  with a have "first_user_title lines = JStr []"
    using first_user_title_break [of lines u "JStr []"] by simp
  with a show "si_title info = JStr ''(untitled)''"
    by (simp add: scanSession_title [OF assms])
next
  assume a: "session_names (tl lines) = [] \<and> first_user_message lines = None"
  then have "first_user_title lines = JStr []"
    by (simp add: first_user_title_none)
  with a show "si_title info = JStr ''(untitled)''"
    by (simp add: scanSession_title [OF assms])
qed

theorem scanSession_title_cases_witness:
  "si_title
     \<lparr>si_file = ''s.jsonl'', si_timestamp = JStr ''2026-02-18T10:00:00.000Z'',
      si_title = JStr ''Fix memory bug'', si_isChild = False, si_parentSession = None,
      si_cwd = JStr ''/project'', si_cost = []\<rparr>
     = last (session_names
         [Some (JObj [(''type'', JStr ''session_info''), (''name'', JStr ''Fix memory bug'')]),
          Some (JObj [(''type'', JStr ''message''),
                      (''message'', JObj [(''role'', JStr ''user''), (''content'', JStr ''hello'')])])])
   \<and> si_title
     \<lparr>si_file = ''s.jsonl'', si_timestamp = JStr ''2026-02-18T10:00:00.000Z'',
      si_title = JStr ''Array content message'', si_isChild = True,
      si_parentSession = Some (JStr ''parent-123''), si_cwd = JStr '''', si_cost = []\<rparr>
     = JStr (take 80 ''Array content message'')"
proof -
  let ?h1 = "JObj [(''timestamp'', JStr ''2026-02-18T10:00:00.000Z''), (''cwd'', JStr ''/project'')]"
  let ?r1 = "[Some (JObj [(''type'', JStr ''session_info''), (''name'', JStr ''Fix memory bug'')]),
          Some (JObj [(''type'', JStr ''message''),
                      (''message'', JObj [(''role'', JStr ''user''), (''content'', JStr ''hello'')])])]"
  let ?i1 = "\<lparr>si_file = ''s.jsonl'', si_timestamp = JStr ''2026-02-18T10:00:00.000Z'',
      si_title = JStr ''Fix memory bug'', si_isChild = False, si_parentSession = None,
      si_cwd = JStr ''/project'', si_cost = []\<rparr>"
  let ?h2 = "JObj [(''timestamp'', JStr ''2026-02-18T10:00:00.000Z''),
                   (''parentSession'', JStr ''parent-123'')]"
  let ?p = "JObj [(''type'', JStr ''text''), (''text'', JStr ''Array content message'')]"
  let ?parts = "[JObj [(''type'', JStr ''image'')], ?p]"
  let ?u = "JObj [(''type'', JStr ''message''),
                  (''message'', JObj [(''role'', JStr ''user''), (''content'', JArr ?parts)])]"
  let ?i2 = "\<lparr>si_file = ''s.jsonl'', si_timestamp = JStr ''2026-02-18T10:00:00.000Z'',
      si_title = JStr ''Array content message'', si_isChild = True,
      si_parentSession = Some (JStr ''parent-123''), si_cwd = JStr '''', si_cost = []\<rparr>"
  have e1: "scanSession example_date_ms example_now ''s.jsonl'' (Some (Some ?h1 # ?r1)) = Some ?i1"
    by code_simp
  have n1: "session_names (tl (Some ?h1 # ?r1)) \<noteq> []"
    by code_simp
  have e2: "scanSession example_date_ms example_now ''s.jsonl'' (Some [Some ?h2, None, Some ?u])
              = Some ?i2"
    by code_simp
  have n2: "session_names (tl [Some ?h2, None, Some ?u]) = []
      \<and> first_user_message [Some ?h2, None, Some ?u] = Some ?u
      \<and> user_content ?u = Some (JArr ?parts)
      \<and> JNull \<notin> set (takeWhile (\<lambda>c. \<not> is_text_part c) ?parts)
      \<and> List.find is_text_part ?parts = Some ?p
      \<and> opt_prop (Some ?p) ''text'' = Some (JStr ''Array content message'')
      \<and> ''Array content message'' \<noteq> []"
    by code_simp
  from scanSession_title_cases [OF e1, THEN conjunct1, THEN mp, OF n1]
  have "si_title ?i1 = last (session_names ?r1)" by simp
  moreover
  from scanSession_title_cases [OF e2, THEN conjunct2, THEN conjunct2, THEN conjunct1, THEN mp, OF n2]
  have "si_title ?i2 = JStr (take 80 ''Array content message'')" by (rule conjunct1)
  ultimately show ?thesis by (rule conjI)
qed

text \<open>
  Claim C4 as stated fails on a log with no \<open>session_info\<close> entry whose first user
  message has the empty string as payload: the title derived from it would be the
  empty string, and \<open>scanSession\<close> returns \<open>(untitled)\<close>, though a user message exists.
\<close>

theorem empty_user_message_untitled_counterexample:
  "scanSession example_date_ms example_now ''s.jsonl''
     (Some [Some (JObj [(''timestamp'', JStr ''2026-02-18T10:00:00.000Z'')]),
            Some (JObj [(''type'', JStr ''message''),
                        (''message'', JObj [(''role'', JStr ''user''), (''content'', JStr '''')])])])
     = Some \<lparr>si_file = ''s.jsonl'', si_timestamp = JStr ''2026-02-18T10:00:00.000Z'',
             si_title = JStr ''(untitled)'', si_isChild = False, si_parentSession = None,
             si_cwd = JStr '''', si_cost = []\<rparr>
   \<and> session_names
       [Some (JObj [(''type'', JStr ''message''),
                    (''message'', JObj [(''role'', JStr ''user''), (''content'', JStr '''')])])] = []
   \<and> first_user_message
       [Some (JObj [(''timestamp'', JStr ''2026-02-18T10:00:00.000Z'')]),
        Some (JObj [(''type'', JStr ''message''),
                    (''message'', JObj [(''role'', JStr ''user''), (''content'', JStr '''')])])]
     = Some (JObj [(''type'', JStr ''message''),
                   (''message'', JObj [(''role'', JStr ''user''), (''content'', JStr '''')])])
   \<and> user_content (JObj [(''type'', JStr ''message''),
                   (''message'', JObj [(''role'', JStr ''user''), (''content'', JStr '''')])])
     = Some (JStr '''')
   \<and> JStr ''(untitled)'' \<noteq> JStr (take 80 '''')"
  by code_simp

section \<open>Properties of searchMemory\<close>

text \<open>What one run of the line loop adds: results of this file, numbered from the
  loop's index, each with the trimmed text of its line.\<close>

lemma search_lines_adds:
  "\<exists>new. search_lines needle m dn i ls acc = acc @ new
     \<and> (\<forall>r\<in>set new. lr_file r = dn \<and> i < lr_line r \<and> lr_line r \<le> i + length ls
            \<and> lr_text r = trimEnd (ls ! (lr_line r - 1 - i))
            \<and> includes_str (toLowerCase (ls ! (lr_line r - 1 - i))) needle)"
proof (induction ls arbitrary: i acc)
  case Nil
  show ?case by simp
next
  case (Cons l ls)
  show ?case
  proof (cases "count_lt (length acc) m")
    case False
    then show ?thesis by simp
  next
    case True
    let ?acc = "if includes_str (toLowerCase l) needle
                then acc @ [\<lparr>lr_file = dn, lr_line = i + 1, lr_text = trimEnd l\<rparr>] else acc"
    from Cons [of "Suc i" ?acc] obtain new where
      n: "search_lines needle m dn (Suc i) ls ?acc = ?acc @ new" and
      p: "\<forall>r\<in>set new. lr_file r = dn \<and> Suc i < lr_line r \<and> lr_line r \<le> Suc i + length ls
            \<and> lr_text r = trimEnd (ls ! (lr_line r - 1 - Suc i))
            \<and> includes_str (toLowerCase (ls ! (lr_line r - 1 - Suc i))) needle"
      by blast
    have q: "\<forall>r\<in>set new. lr_file r = dn \<and> i < lr_line r \<and> lr_line r \<le> i + length (l # ls)
            \<and> lr_text r = trimEnd ((l # ls) ! (lr_line r - 1 - i))
            \<and> includes_str (toLowerCase ((l # ls) ! (lr_line r - 1 - i))) needle"
    proof
      fix r assume r: "r \<in> set new"
      with p have f: "lr_file r = dn" and s: "Suc i < lr_line r"
        and u: "lr_line r \<le> Suc i + length ls"
        and t: "lr_text r = trimEnd (ls ! (lr_line r - 1 - Suc i))"
        and c: "includes_str (toLowerCase (ls ! (lr_line r - 1 - Suc i))) needle"
        by blast+
      from s have "lr_line r - 1 - i = Suc (lr_line r - 1 - Suc i)" by arith
      then have e: "(l # ls) ! (lr_line r - 1 - i) = ls ! (lr_line r - 1 - Suc i)" by simp
      from s have "i < lr_line r" by arith
      moreover from u have "lr_line r \<le> i + length (l # ls)" by simp
      ultimately show "lr_file r = dn \<and> i < lr_line r \<and> lr_line r \<le> i + length (l # ls)
            \<and> lr_text r = trimEnd ((l # ls) ! (lr_line r - 1 - i))
            \<and> includes_str (toLowerCase ((l # ls) ! (lr_line r - 1 - i))) needle"
        using f t c unfolding e by blast
    qed
    show ?thesis
    proof (cases "includes_str (toLowerCase l) needle")
      case False
      with True n q show ?thesis by auto
    next
      case inc: True
      let ?r = "\<lparr>lr_file = dn, lr_line = i + 1, lr_text = trimEnd l\<rparr>"
      from True inc n have "search_lines needle m dn i (l # ls) acc = acc @ (?r # new)"
        by simp
      moreover from inc q have "\<forall>r\<in>set (?r # new). lr_file r = dn \<and> i < lr_line r
            \<and> lr_line r \<le> i + length (l # ls)
            \<and> lr_text r = trimEnd ((l # ls) ! (lr_line r - 1 - i))
            \<and> includes_str (toLowerCase ((l # ls) ! (lr_line r - 1 - i))) needle"
        by simp
      ultimately show ?thesis by blast
    qed
  qed
qed

text \<open>The line loop pushes a result only while the length is below the limit.\<close>

lemma search_lines_within:
  "within_limit m (length acc) \<Longrightarrow>
   within_limit m (length (search_lines needle m dn i ls acc))"
proof (induction ls arbitrary: i acc)
  case Nil
  then show ?case by simp
next
  case (Cons l ls)
  show ?case
  proof (cases "count_lt (length acc) m")
    case False
    with Cons.prems show ?thesis by simp
  next
    case True
    let ?acc = "if includes_str (toLowerCase l) needle
                then acc @ [\<lparr>lr_file = dn, lr_line = i + 1, lr_text = trimEnd l\<rparr>] else acc"
    from True Cons.prems have "within_limit m (length ?acc)"
      by (simp add: within_limit_def)
    then have "within_limit m (length (search_lines needle m dn (Suc i) ls ?acc))"
      by (rule Cons.IH)
    with True show ?thesis by simp
  qed
qed

text \<open>A limit that is a whole number \<open>n\<close> lets through at most \<open>n\<close> results.\<close>

lemma within_limit_whole:
  "within_limit (Finite (of_nat n)) k \<Longrightarrow> k \<le> n"
  by (cases k) (simp_all add: within_limit_def)

lemma searchFile_ok:
  assumes "results_ok config needle m fs st"
    and "search_root config (dir, pre)"
    and "fs_listing fs dir = Some names" and "f \<in> set names" and "endsWith f ''.md''"
  shows "results_ok config needle m fs
           (searchFile needle m fs (path_join [dir, f]) (display_name pre f) st)"
proof (cases "fs_files fs (path_join [dir, f])")
  case None
  with assms(1) show ?thesis
    by (simp add: searchFile_def readFileSafe_def results_ok_def Let_def)
next
  case (Some content)
  show ?thesis
  proof (cases "content = []")
    case True
    with Some assms(1) show ?thesis
      by (simp add: searchFile_def readFileSafe_def results_ok_def Let_def)
  next
    case False
    let ?ls = "split_on LF content"
    obtain new where
      n: "search_lines needle m (display_name pre f) 0 ?ls (lineResults st)
            = lineResults st @ new" and
      p: "\<forall>r\<in>set new. lr_file r = display_name pre f \<and> 0 < lr_line r
            \<and> lr_line r \<le> 0 + length ?ls
            \<and> lr_text r = trimEnd (?ls ! (lr_line r - 1 - 0))
            \<and> includes_str (toLowerCase (?ls ! (lr_line r - 1 - 0))) needle"
      using search_lines_adds [of needle m "display_name pre f" 0 ?ls "lineResults st"] by blast
    have s: "\<forall>r\<in>set new. from_markdown_line config needle fs r"
    proof
      fix r assume "r \<in> set new"
      with p have "lr_file r = display_name pre f \<and> 1 \<le> lr_line r
            \<and> lr_line r \<le> length ?ls
            \<and> lr_text r = trimEnd (?ls ! (lr_line r - 1))
            \<and> includes_str (toLowerCase (?ls ! (lr_line r - 1))) needle"
        by force
      with assms(2-5) Some show "from_markdown_line config needle fs r"
        unfolding from_markdown_line_def search_root_def by blast
    qed
    have w: "within_limit m
               (length (search_lines needle m (display_name pre f) 0 ?ls (lineResults st)))"
      using assms(1) by (intro search_lines_within) (simp add: results_ok_def)
    from assms(1) s have "\<forall>r\<in>set (lineResults st @ new). from_markdown_line config needle fs r"
      by (auto simp: results_ok_def)
    with w n Some False show ?thesis
      by (simp add: searchFile_def readFileSafe_def results_ok_def Let_def)
  qed
qed

lemma search_files_ok:
  assumes "search_root config (dir, pre)" and "fs_listing fs dir = Some names"
  shows "results_ok config needle m fs st \<Longrightarrow>
         \<forall>f\<in>set files. f \<in> set names \<and> endsWith f ''.md'' \<Longrightarrow>
         results_ok config needle m fs (search_files needle m fs dir pre files st)"
proof (induction files arbitrary: st)
  case Nil
  then show ?case by simp
next
  case (Cons f files)
  show ?case
  proof (cases "count_ge (length (lineResults st)) m")
    case True
    with Cons.prems show ?thesis by simp
  next
    case False
    from Cons.prems have "results_ok config needle m fs
        (searchFile needle m fs (path_join [dir, f]) (display_name pre f) st)"
      using assms by (intro searchFile_ok [where names = names]) simp_all
    with Cons.IH Cons.prems(2) False show ?thesis by simp
  qed
qed

lemma searchDir_ok:
  assumes "search_root config (dir, pre)" and "results_ok config needle m fs st"
  shows "results_ok config needle m fs (searchDir needle m fs dir pre st)"
proof (cases "fs_listing fs dir")
  case None
  with assms(2) show ?thesis by (simp add: searchDir_def)
next
  case (Some names)
  have "results_ok config needle m fs
          (search_files needle m fs dir pre (sort (filter (\<lambda>f. endsWith f ''.md'') names)) st)"
    using assms(1) Some assms(2) by (rule search_files_ok) simp
  with Some show ?thesis by (simp add: searchDir_def)
qed

lemma searchDir_stops:
  "count_ge (length (lineResults st)) m \<Longrightarrow> searchDir needle m fs dir pre st = st"
proof (cases "fs_listing fs dir")
  case None
  then show ?thesis by (simp add: searchDir_def)
next
  case (Some names)
  assume "count_ge (length (lineResults st)) m"
  then have "search_files needle m fs dir pre fl st = st" for fl
    by (cases fl) simp_all
  with Some show ?thesis by (simp add: searchDir_def)
qed

lemma searchMemory_ok:
  "results_ok config (toLowerCase query) m fs (searchMemory config query m fs)"
proof -
  let ?needle = "toLowerCase query"
  let ?st0 = "\<lparr>fileMatches = [], lineResults = []\<rparr>"
  let ?st1 = "searchDir ?needle m fs (memoryDir config) '''' ?st0"
  let ?st2 = "searchDir ?needle m fs (dailyDir config) ''daily'' ?st1"
  have 0: "results_ok config ?needle m fs ?st0"
    by (simp add: results_ok_def within_limit_def)
  have 1: "results_ok config ?needle m fs ?st1"
    using _ 0 by (rule searchDir_ok) (simp add: search_root_def)
  have 2: "results_ok config ?needle m fs ?st2"
    using _ 1 by (rule searchDir_ok) (simp add: search_root_def)
  have "results_ok config ?needle m fs (searchDir ?needle m fs (notesDir config) ''notes'' ?st2)"
    using _ 2 by (rule searchDir_ok) (simp add: search_root_def)
  then show ?thesis by (simp add: searchMemory_def Let_def)
qed

lemma searchMemory_within:
  "within_limit m (length (lineResults (searchMemory config query m fs)))"
  using searchMemory_ok [of config query m fs] by (simp add: results_ok_def)

text \<open>
  Claim C8, as amended. For every query and every result limit \<open>maxResults\<close>, any
  JavaScript number:

  \<^item> when the limit is a whole number \<open>n\<close>, \<open>searchMemory\<close> returns at most \<open>n\<close> line
    results;
  \<^item> whatever the limit, there is no line result, or the number of line results less one
    is below the limit (the last one was pushed while \<open>lineResults.length < maxResults\<close>
    held): a limit of 1.5 lets two results through, \<open>NaN\<close> and the negative numbers
    let none through, \<open>Infinity\<close> lets all through;
  \<^item> every line result comes from a file of one of the three directories whose name ends
    in \<open>.md\<close> (so none from a \<open>.json\<close> file), carries the number of its line counted
    from 1 and the line without its trailing white space, and the line contains the
    query, case ignored;
  \<^item> once \<open>lineResults.length >= maxResults\<close> holds, \<open>searchDir\<close> leaves the state as
    it is, in every directory.
\<close>

theorem searchMemory_line_results:
  "(maxResults = Finite (of_nat n) \<longrightarrow>
      length (lineResults (searchMemory config query maxResults fs)) \<le> n)
   \<and> (length (lineResults (searchMemory config query maxResults fs)) = 0
        \<or> count_lt (length (lineResults (searchMemory config query maxResults fs)) - 1)
             maxResults)
   \<and> (\<forall>r\<in>set (lineResults (searchMemory config query maxResults fs)).
         \<exists>dir pre names f content.
           (dir, pre) \<in> {(memoryDir config, ''''), (dailyDir config, ''daily''),
                          (notesDir config, ''notes'')}
           \<and> fs_listing fs dir = Some names \<and> f \<in> set names \<and> endsWith f ''.md''
           \<and> lr_file r = display_name pre f
           \<and> fs_files fs (path_join [dir, f]) = Some content
           \<and> 1 \<le> lr_line r \<and> lr_line r \<le> length (split_on LF content)
           \<and> lr_text r = trimEnd (split_on LF content ! (lr_line r - 1))
           \<and> includes_str (toLowerCase (split_on LF content ! (lr_line r - 1)))
                (toLowerCase query))
   \<and> (count_ge (length (lineResults st)) maxResults \<longrightarrow>
        searchDir needle maxResults fs dir' pre' st = st)"
proof -
  have a: "maxResults = Finite (of_nat n) \<longrightarrow>
      length (lineResults (searchMemory config query maxResults fs)) \<le> n"
    using searchMemory_within [of "Finite (of_nat n)" config query fs]
    by (auto dest: within_limit_whole)
  have b: "length (lineResults (searchMemory config query maxResults fs)) = 0
        \<or> count_lt (length (lineResults (searchMemory config query maxResults fs)) - 1)
             maxResults"
    using searchMemory_within [of maxResults config query fs]
    by (simp add: within_limit_def)
  have c: "\<forall>r\<in>set (lineResults (searchMemory config query maxResults fs)).
         \<exists>dir pre names f content.
           (dir, pre) \<in> {(memoryDir config, ''''), (dailyDir config, ''daily''),
                          (notesDir config, ''notes'')}
           \<and> fs_listing fs dir = Some names \<and> f \<in> set names \<and> endsWith f ''.md''
           \<and> lr_file r = display_name pre f
           \<and> fs_files fs (path_join [dir, f]) = Some content
           \<and> 1 \<le> lr_line r \<and> lr_line r \<le> length (split_on LF content)
           \<and> lr_text r = trimEnd (split_on LF content ! (lr_line r - 1))
           \<and> includes_str (toLowerCase (split_on LF content ! (lr_line r - 1)))
                (toLowerCase query)"
    using searchMemory_ok [of config query maxResults fs]
    unfolding results_ok_def from_markdown_line_def by blast
  have d: "count_ge (length (lineResults st)) maxResults \<longrightarrow>
        searchDir needle maxResults fs dir' pre' st = st"
    using searchDir_stops [of st maxResults needle fs dir' pre'] by blast
  from a b c d show ?thesis by (intro conjI)
qed

theorem searchMemory_line_results_witness:
  "lineResults (searchMemory example_config ''TARGET'' (Finite 2) example_search_fs)
     = [\<lparr>lr_file = ''notes.md'', lr_line = 2, lr_text = ''Target in md''\<rparr>,
        \<lparr>lr_file = ''daily/2026-02-18.md'', lr_line = 1, lr_text = ''target one''\<rparr>]
   \<and> length (lineResults (searchMemory example_config ''TARGET'' (Finite 2) example_search_fs))
       \<le> 2
   \<and> searchDir ''target'' (Finite 2) example_search_fs ''/m/daily'' ''daily''
         (searchMemory example_config ''TARGET'' (Finite 2) example_search_fs)
       = searchMemory example_config ''TARGET'' (Finite 2) example_search_fs"
proof -
  have v: "lineResults (searchMemory example_config ''TARGET'' (Finite 2) example_search_fs)
     = [\<lparr>lr_file = ''notes.md'', lr_line = 2, lr_text = ''Target in md''\<rparr>,
        \<lparr>lr_file = ''daily/2026-02-18.md'', lr_line = 1, lr_text = ''target one''\<rparr>]"
    by code_simp
  then have l: "count_ge
      (length (lineResults (searchMemory example_config ''TARGET'' (Finite 2) example_search_fs)))
      (Finite 2)"
    by simp
  have w: "Finite 2 = Finite (of_nat 2)" by simp
  from searchMemory_line_results
    [where maxResults = "Finite 2" and n = 2 and config = example_config
       and query = "''TARGET''" and fs = example_search_fs,
     THEN conjunct1, THEN mp, OF w]
  have b: "length (lineResults (searchMemory example_config ''TARGET'' (Finite 2)
             example_search_fs)) \<le> 2" .
  from searchMemory_line_results
    [where maxResults = "Finite 2"
       and st = "searchMemory example_config ''TARGET'' (Finite 2) example_search_fs"
       and needle = "''target''" and fs = example_search_fs and dir' = "''/m/daily''"
       and pre' = "''daily''",
     THEN conjunct2, THEN conjunct2, THEN conjunct2, THEN mp, OF l]
  have s: "searchDir ''target'' (Finite 2) example_search_fs ''/m/daily'' ''daily''
         (searchMemory example_config ''TARGET'' (Finite 2) example_search_fs)
       = searchMemory example_config ''TARGET'' (Finite 2) example_search_fs" .
  from v b s show ?thesis by (intro conjI)
qed

text \<open>
  The claim as first stated, with the bound "never more line results than the limit"
  for every limit, fails at a limit that is no whole number: with the limit 1.5 the
  second result is pushed while \<open>1 < 1.5\<close> holds, and the search returns two line
  results.
\<close>

theorem fractional_limit_exceeded_counterexample:
  "lineResults (searchMemory example_config ''target'' (Finite (3 / 2)) example_search_fs)
     = [\<lparr>lr_file = ''notes.md'', lr_line = 2, lr_text = ''Target in md''\<rparr>,
        \<lparr>lr_file = ''daily/2026-02-18.md'', lr_line = 1, lr_text = ''target one''\<rparr>]
   \<and> \<not> count_ge 1 (Finite (3 / 2))
   \<and> \<not> (of_nat (length (lineResults
            (searchMemory example_config ''target'' (Finite (3 / 2)) example_search_fs)))
          \<le> (3 / 2 :: rat))"
proof -
  have v: "lineResults (searchMemory example_config ''target'' (Finite (3 / 2)) example_search_fs)
     = [\<lparr>lr_file = ''notes.md'', lr_line = 2, lr_text = ''Target in md''\<rparr>,
        \<lparr>lr_file = ''daily/2026-02-18.md'', lr_line = 1, lr_text = ''target one''\<rparr>]"
    by code_simp
  have c: "\<not> count_ge 1 (Finite (3 / 2))" by simp
  from v have "\<not> (of_nat (length (lineResults
            (searchMemory example_config ''target'' (Finite (3 / 2)) example_search_fs)))
          \<le> (3 / 2 :: rat))"
    by simp
  with v c show ?thesis by (intro conjI)
qed

text \<open>The limits that are no finite number: \<open>NaN\<close> and a negative limit give no line
  result, and the default of 20 gives all three of the instance.\<close>

lemma searchMemory_nan_example:
  "lineResults (searchMemory example_config ''target'' NaN example_search_fs) = []
   \<and> lineResults (searchMemory example_config ''target'' (Finite (- 1)) example_search_fs) = []"
  by code_simp

lemma searchMemory_skips_json_example:
  "lineResults (searchMemory example_config ''target'' (Finite 20) example_search_fs)
     = [\<lparr>lr_file = ''notes.md'', lr_line = 2, lr_text = ''Target in md''\<rparr>,
        \<lparr>lr_file = ''daily/2026-02-18.md'', lr_line = 1, lr_text = ''target one''\<rparr>,
        \<lparr>lr_file = ''daily/2026-02-18.md'', lr_line = 2, lr_text = ''target two''\<rparr>]"
  by code_simp

end
